theory Spec2Isabelle
  imports Complex_Main "HOL-Library.Product_Lexorder" "HOL-Library.Multiset"
begin

section \<open>Strings and numbers of the host language\<close>

text \<open>
  The runner is a Node.js script. Strings are modelled as \<^typ>\<open>string\<close>; every string the
  properties below look at (file names, stage names, option values) is ASCII.

  A JavaScript number that comes out of \<open>parseInt(s, 10)\<close> is an integer or \<open>NaN\<close>. The
  model keeps the integer exactly; the source rounds it to a double, so both agree on
  every numeral below \<open>2^53\<close>.
\<close>

datatype jsnum = NaN | Num int

text \<open>\<open>priority < minPriority\<close>: a comparison with \<open>NaN\<close> is false.\<close>

fun js_lt :: "int \<Rightarrow> jsnum \<Rightarrow> bool" where
  "js_lt p NaN = False"
| "js_lt p (Num n) = (p < n)"

definition is_digit :: "char \<Rightarrow> bool" where
  "is_digit c = (c \<in> set ''0123456789'')"

definition digit_val :: "char \<Rightarrow> int" where
  "digit_val c = of_char c - 48"

definition digits_value :: "string \<Rightarrow> int" where
  "digits_value ds = foldl (\<lambda>n c. 10 * n + digit_val c) 0 ds"

text \<open>White space as \<open>String.prototype.trim\<close> and \<open>parseInt\<close> skip it (the ASCII part).\<close>

definition is_space :: "char \<Rightarrow> bool" where
  "is_space c = (c \<in> {CHR '' '', CHR 0x09, CHR 0x0A, CHR 0x0B, CHR 0x0C, CHR 0x0D})"

definition trim :: "string \<Rightarrow> string" where
  "trim s = rev (dropWhile is_space (rev (dropWhile is_space s)))"

text \<open>
  \<open>parseInt(s, 10)\<close>: leading white space is skipped, one sign is read, then the longest
  run of decimal digits; no digit gives \<open>NaN\<close>. An absent argument (\<open>undefined\<close>) is the
  string \<open>undefined\<close>, which has no digit.
\<close>

definition parseInt :: "string \<Rightarrow> jsnum" where
  "parseInt s =
     (let t = dropWhile is_space s;
          neg = (t \<noteq> [] \<and> hd t = CHR ''-'');
          u = (if t \<noteq> [] \<and> (hd t = CHR ''-'' \<or> hd t = CHR ''+'') then tl t else t);
          ds = takeWhile is_digit u
      in if ds = [] then NaN
         else Num (if neg then - digits_value ds else digits_value ds))"

definition endsWith :: "string \<Rightarrow> string \<Rightarrow> bool" where
  "endsWith s suf = (length suf \<le> length s \<and> drop (length s - length suf) s = suf)"

text \<open>\<open>s.split(c)\<close> for a one-character separator: the pieces between the separators.\<close>

fun split_on :: "char \<Rightarrow> string \<Rightarrow> string list" where
  "split_on c [] = [[]]"
| "split_on c (x # xs) =
     (if x = c then [] # split_on c xs
      else (case split_on c xs of
              [] \<Rightarrow> [[x]]
            | p # ps \<Rightarrow> (x # p) # ps))"

fun join_with :: "string \<Rightarrow> string list \<Rightarrow> string" where
  "join_with sep [] = []"
| "join_with sep [x] = x"
| "join_with sep (x # y # ys) = x @ sep @ join_with sep (y # ys)"

text \<open>
  \<open>path.join(a, b)\<close> for a directory and a clean relative segment, and \<open>path.basename\<close>
  (trailing separators dropped, then the part after the last separator).
\<close>

definition join :: "string \<Rightarrow> string \<Rightarrow> string" where
  "join a b = a @ ''/'' @ b"

definition basename :: "string \<Rightarrow> string" where
  "basename p =
     rev (takeWhile (\<lambda>c. c \<noteq> CHR ''/'') (dropWhile (\<lambda>c. c = CHR ''/'') (rev p)))"

text \<open>
  \<open>Array.prototype.sort(cmp)\<close> is a stable sort. With a comparator that orders by a key
  every stable sort returns the same list, so stable insertion is the model: an element is
  placed before the first later element it does not exceed.
\<close>

fun insert_cmp :: "('a \<Rightarrow> 'a \<Rightarrow> int) \<Rightarrow> 'a \<Rightarrow> 'a list \<Rightarrow> 'a list" where
  "insert_cmp cmp x [] = [x]"
| "insert_cmp cmp x (y # ys) =
     (if cmp x y \<le> 0 then x # y # ys else y # insert_cmp cmp x ys)"

definition js_sort :: "('a \<Rightarrow> 'a \<Rightarrow> int) \<Rightarrow> 'a list \<Rightarrow> 'a list" where
  "js_sort cmp xs = foldr (insert_cmp cmp) xs []"

section \<open>Ticket discovery\<close>

text \<open>The source's field \<open>file\<close> is \<open>file_name\<close> here (\<open>file\<close> is a keyword).\<close>

record ticket =
  file_name :: string
  path :: string
  stage :: string
  priority :: int

record filesystem =
  readable :: "string \<Rightarrow> bool"
  readdir :: "string \<Rightarrow> string list option"
  readFile :: "string \<Rightarrow> string option"
  writable :: "string \<Rightarrow> bool"

text \<open>
  \<open>PRIORITY_PREFIX = /^(\d+)-/\<close>: the match returns the digits of the group. \<open>\d+\<close> is
  greedy and a digit is not a dash, so the pattern matches exactly when the longest
  leading run of digits is not empty and a dash follows it.
\<close>

definition PRIORITY_PREFIX_match :: "string \<Rightarrow> string option" where
  "PRIORITY_PREFIX_match s =
     (let ds = takeWhile is_digit s; rest = dropWhile is_digit s
      in if ds \<noteq> [] \<and> rest \<noteq> [] \<and> hd rest = CHR ''-'' then Some ds else None)"

definition PRIORITY_PREFIX_test :: "string \<Rightarrow> bool" where
  "PRIORITY_PREFIX_test s = (PRIORITY_PREFIX_match s \<noteq> None)"

definition parsePriority :: "string \<Rightarrow> int" where
  "parsePriority filename =
     (case PRIORITY_PREFIX_match (basename filename) of
        Some ds \<Rightarrow> digits_value ds
      | None \<Rightarrow> 0)"

text \<open>The body of the loop over the directory entries, in the order \<open>readdir\<close> gave them.\<close>

fun collect :: "string \<Rightarrow> string \<Rightarrow> jsnum \<Rightarrow> string list \<Rightarrow> ticket list" where
  "collect stageDir st minPriority [] = []"
| "collect stageDir st minPriority (entry # entries) =
     (if \<not> endsWith entry ''.md'' \<or> \<not> PRIORITY_PREFIX_test entry
      then collect stageDir st minPriority entries
      else if js_lt (parsePriority entry) minPriority
      then collect stageDir st minPriority entries
      else \<lparr>file_name = entry, path = join stageDir entry, stage = st,
             priority = parsePriority entry\<rparr>
           # collect stageDir st minPriority entries)"

text \<open>
  \<open>discoverTickets\<close>: a stage directory that cannot be read gives no ticket; a failing
  \<open>readdir\<close> rejects (\<open>None\<close>).
\<close>

definition discoverTickets :: "filesystem \<Rightarrow> string \<Rightarrow> string \<Rightarrow> jsnum \<Rightarrow> ticket list option" where
  "discoverTickets fs ticketsDir st minPriority =
     (let stageDir = join ticketsDir st
      in if \<not> readable fs stageDir then Some []
         else (case readdir fs stageDir of
                 None \<Rightarrow> None
               | Some entries \<Rightarrow>
                   Some (js_sort (\<lambda>a b. priority b - priority a)
                           (collect stageDir st minPriority entries))))"

section \<open>Stream normalizers\<close>

text \<open>
  A parsed JSON value. \<open>JSON.parse\<close> is the platform's: it is a parameter of the model
  (\<open>None\<close> is its \<open>SyntaxError\<close>). The displayable text of an event is no subject of a
  property here, so the platform record also carries the text renderers; which branch is
  taken, when rendering raises, and the \<open>done\<close> and \<open>exitCode\<close> fields are modelled in
  full. For the three non-terminal shapes \<open>claude_text\<close> is the text of the event: the
  rendered one, or the line itself when rendering raises; neither sets \<open>done\<close>. An object
  is its list of own properties, each key once; a number is the real value of the double.
\<close>

datatype json =
    JNull
  | JBool bool
  | JNum real
  | JStr string
  | JArr "json list"
  | JObj "(string \<times> json) list"

text \<open>The source's fields \<open>text\<close> and \<open>done\<close> are \<open>text_of\<close> and \<open>is_done\<close> here.\<close>

record stream_event =
  text_of :: string
  is_done :: bool
  exitCode :: "int option"

record platform =
  JSON_parse :: "string \<Rightarrow> json option"
  claude_text :: "json \<Rightarrow> string \<Rightarrow> string"
  result_text :: "json \<Rightarrow> string"
  cursor_text :: "string \<Rightarrow> string"

text \<open>
  \<open>obj.name\<close> on a parsed value other than \<open>null\<close>: an own property of an object, else
  \<open>undefined\<close> (\<open>None\<close>); none of the names the normalizer reads is inherited.
\<close>

fun get_prop :: "json \<Rightarrow> string \<Rightarrow> json option" where
  "get_prop (JObj fs) name = map_of fs name"
| "get_prop v name = None"

text \<open>Truthiness of \<open>obj.is_error\<close>; \<open>undefined\<close> is falsy.\<close>

fun truthy :: "json option \<Rightarrow> bool" where
  "truthy None = False"
| "truthy (Some JNull) = False"
| "truthy (Some (JBool b)) = b"
| "truthy (Some (JNum x)) = (x \<noteq> 0)"
| "truthy (Some (JStr s)) = (s \<noteq> [])"
| "truthy (Some (JArr xs)) = True"
| "truthy (Some (JObj fs)) = True"

text \<open>
  Converting a parsed value to a number or a string raises a \<open>TypeError\<close> exactly when
  it reaches an object with an own property \<open>toString\<close> (which cannot be callable); an
  array converts its elements.
\<close>

fun prim_throws :: "json \<Rightarrow> bool" where
  "prim_throws (JObj fs) = (''toString'' \<in> set (map fst fs))"
| "prim_throws (JArr xs) = (\<exists>x \<in> set xs. prim_throws x)"
| "prim_throws v = False"

text \<open>
  The three interpolations of the result branch: \<open>total_cost_usd.toFixed(4)\<close> raises on
  anything but a number unless the field is \<open>null\<close> or absent; \<open>duration_ms / 1000\<close> and
  the template's \<open>result\<close> raise when the conversion does.
\<close>

fun cost_throws :: "json option \<Rightarrow> bool" where
  "cost_throws None = False"
| "cost_throws (Some JNull) = False"
| "cost_throws (Some (JNum x)) = False"
| "cost_throws (Some v) = True"

fun conv_throws :: "json option \<Rightarrow> bool" where
  "conv_throws None = False"
| "conv_throws (Some v) = prim_throws v"

definition result_throws :: "json \<Rightarrow> bool" where
  "result_throws obj =
     (cost_throws (get_prop obj ''total_cost_usd'') \<or> conv_throws (get_prop obj ''duration_ms'')
      \<or> conv_throws (get_prop obj ''result''))"

definition passthrough :: "string \<Rightarrow> stream_event" where
  "passthrough line =
     \<lparr>text_of = (if endsWith line [CHR 0x0A] then line else line @ [CHR 0x0A]),
      is_done = False, exitCode = None\<rparr>"

definition formatClaudeJsonLine :: "platform \<Rightarrow> string \<Rightarrow> stream_event" where
  "formatClaudeJsonLine P line =
     (case JSON_parse P line of
        None \<Rightarrow> passthrough line
      | Some obj \<Rightarrow>
          if obj = JNull then passthrough line
          else if get_prop obj ''type'' = Some (JStr ''system'')
                  \<and> get_prop obj ''subtype'' = Some (JStr ''init'')
          then \<lparr>text_of = claude_text P obj line, is_done = False, exitCode = None\<rparr>
          else if get_prop obj ''type'' = Some (JStr ''assistant'')
          then \<lparr>text_of = claude_text P obj line, is_done = False, exitCode = None\<rparr>
          else if get_prop obj ''type'' = Some (JStr ''user'')
          then \<lparr>text_of = claude_text P obj line, is_done = False, exitCode = None\<rparr>
          else if get_prop obj ''type'' = Some (JStr ''result'')
          then (if result_throws obj then passthrough line
                else \<lparr>text_of = result_text P obj, is_done = True,
                       exitCode = Some (if truthy (get_prop obj ''is_error'') then 1 else 0)\<rparr>)
          else passthrough line)"

definition formatCursorJsonLine :: "platform \<Rightarrow> string \<Rightarrow> stream_event" where
  "formatCursorJsonLine P line = \<lparr>text_of = cursor_text P line, is_done = False, exitCode = None\<rparr>"

section \<open>Agent adapters\<close>

datatype invocation = Argv string "string list" | Shell string

record adapter =
  invoke :: invocation
  formatStream :: "(string \<Rightarrow> stream_event) option"

text \<open>
  \<open>agents[agentName]\<close> on a plain object: one of the three adapters, or a member
  inherited from \<open>Object.prototype\<close> (truthy, so the unknown-agent guard lets it through,
  and using it as an adapter raises), or \<open>undefined\<close>. \<open>Returns\<close> are the inherited
  functions that return a value without a command when called as an adapter, so that the
  failure comes from \<open>spawn\<close>; \<open>Raises\<close> are the members whose call itself raises.
\<close>

datatype agent_lookup = Known adapter | Returns | Raises | Missing

definition claude_adapter :: "platform \<Rightarrow> string \<Rightarrow> string \<Rightarrow> adapter" where
  "claude_adapter P instructionFile st =
     \<lparr>invoke = Argv ''claude''
        [''-p'', ''--dangerously-skip-permissions'', ''--verbose'', ''--no-session-persistence'',
         ''--output-format'', ''stream-json'',
         ''--effort'',
         (if st = ''fix'' \<or> st = ''plan'' \<or> st = ''review'' then ''high'' else ''medium''),
         ''--append-system-prompt-file'', instructionFile,
         ''Work the ticket as described in the appended system prompt.''],
      formatStream = Some (formatClaudeJsonLine P)\<rparr>"

definition auggie_adapter :: "string \<Rightarrow> adapter" where
  "auggie_adapter instructionFile =
     \<lparr>invoke = Argv ''auggie'' [''--print'', ''--instruction'', instructionFile],
      formatStream = None\<rparr>"

text \<open>The instruction file lies below the working directory; its relative path is the rest.\<close>

definition cursor_adapter :: "platform \<Rightarrow> string \<Rightarrow> string \<Rightarrow> adapter" where
  "cursor_adapter P instructionFile cwd =
     \<lparr>invoke = Shell
        (''agent --print -f --trust --output-format stream-json --workspace '' @ [CHR 0x22] @ cwd
         @ [CHR 0x22] @ '' '' @ [CHR 0x22] @ ''Read and follow all instructions in the file: ''
         @ drop (length cwd + 1) instructionFile @ [CHR 0x22]),
      formatStream = Some (formatCursorJsonLine P)\<rparr>"

definition agents :: "platform \<Rightarrow> string \<Rightarrow> string \<Rightarrow> string \<Rightarrow> string option \<Rightarrow> agent_lookup" where
  "agents P instructionFile cwd st agentName =
     (case agentName of
        None \<Rightarrow> Missing
      | Some n \<Rightarrow>
          if n = ''claude'' then Known (claude_adapter P instructionFile st)
          else if n = ''auggie'' then Known (auggie_adapter instructionFile)
          else if n = ''cursor'' then Known (cursor_adapter P instructionFile cwd)
          else if n \<in> set [''toString'', ''constructor'', ''isPrototypeOf''] then Returns
          else if n \<in> set [''__proto__'', ''hasOwnProperty'', ''propertyIsEnumerable'',
                    ''toLocaleString'', ''valueOf'', ''__defineGetter__'', ''__defineSetter__'',
                    ''__lookupGetter__'', ''__lookupSetter__''] then Raises
          else Missing)"

section \<open>Process supervisor\<close>

text \<open>
  One invocation is a state that the child's events transform. Each event carries the
  time (in milliseconds) at which it is handled; a timer is the callback it would run and
  the time it is due. \<open>TimerDue\<close> is the event loop running the pending timer, if one is
  due. The two timers share the one variable \<open>idleTimer\<close>, as in the source.
\<close>

datatype timer_kind = IdleKill | StaleKill

datatype promise = Pending | Resolved int | Rejected

datatype sup_effect =
    WriteOut string
  | WriteErr string
  | Kill timer_kind
  | Trailer int
  | SpawnFailure

datatype child_event =
    StdoutData nat string
  | StderrData nat string
  | TimerDue nat
  | CloseEv nat "int option"
  | ErrorEv

record supervisor =
  idleTimer :: "(timer_kind \<times> nat) option"
  resultExitCode :: "int option"
  settled :: bool
  buf :: string
  outcome :: promise
  effects :: "sup_effect list"

definition IDLE_TIMEOUT_MS :: nat where
  "IDLE_TIMEOUT_MS = 10 * 60 * 1000"

definition GRACE_MS :: nat where
  "GRACE_MS = 30000"

definition spawned :: supervisor where
  "spawned = \<lparr>idleTimer = Some (IdleKill, IDLE_TIMEOUT_MS), resultExitCode = None,
              settled = False, buf = [], outcome = Pending, effects = []\<rparr>"

definition resetIdleTimer :: "nat \<Rightarrow> supervisor \<Rightarrow> supervisor" where
  "resetIdleTimer now s = s\<lparr>idleTimer := Some (IdleKill, now + IDLE_TIMEOUT_MS)\<rparr>"

definition emit :: "sup_effect \<Rightarrow> supervisor \<Rightarrow> supervisor" where
  "emit e s = s\<lparr>effects := effects s @ [e]\<rparr>"

definition settle :: "int \<Rightarrow> supervisor \<Rightarrow> supervisor" where
  "settle code s =
     (if settled s then s
      else (emit (Trailer code) s)
             \<lparr>settled := True, idleTimer := None,
              outcome := (if outcome s = Pending then Resolved code else outcome s)\<rparr>)"

definition processLine ::
  "(string \<Rightarrow> stream_event) option \<Rightarrow> nat \<Rightarrow> string \<Rightarrow> supervisor \<Rightarrow> supervisor" where
  "processLine fmt now line s =
     (case fmt of
        None \<Rightarrow> emit (WriteOut (line @ [CHR 0x0A])) s
      | Some f \<Rightarrow>
          (let result = f line;
               s1 = (if text_of result \<noteq> [] then emit (WriteOut (text_of result)) s else s)
           in if is_done result
              then s1\<lparr>resultExitCode := Some (case exitCode result of Some e \<Rightarrow> e | None \<Rightarrow> 0),
                      idleTimer := Some (StaleKill, now + GRACE_MS)\<rparr>
              else s1))"

definition trimEnd :: "string \<Rightarrow> string" where
  "trimEnd s = rev (dropWhile is_space (rev s))"

text \<open>
  The handlers. A spawn failure rejects; a promise settles once, so a later \<open>close\<close>
  leaves the rejection in place. A timer that has run is no longer pending. The promise is
  resolved when the log stream has finished; the log stream and its back-pressure on the
  child's stdout are not modelled, so \<open>settle\<close> resolves at once.
\<close>

fun handle :: "(string \<Rightarrow> stream_event) option \<Rightarrow> supervisor \<Rightarrow> child_event \<Rightarrow> supervisor" where
  "handle fmt s (StdoutData now chunk) =
     (let s1 = (if resultExitCode s = None then resetIdleTimer now s else s);
          lines = split_on (CHR 0x0A) (buf s1 @ chunk)
      in foldl (\<lambda>st line. processLine fmt now line st) (s1\<lparr>buf := last lines\<rparr>) (butlast lines))"
| "handle fmt s (StderrData now chunk) =
     emit (WriteErr chunk) (if resultExitCode s = None then resetIdleTimer now s else s)"
| "handle fmt s (TimerDue now) =
     (case idleTimer s of
        None \<Rightarrow> s
      | Some (k, due) \<Rightarrow> if due \<le> now then (emit (Kill k) s)\<lparr>idleTimer := None\<rparr> else s)"
| "handle fmt s (CloseEv now code) =
     (let s1 = (if buf s \<noteq> [] then processLine fmt now (trimEnd (buf s)) s else s)
      in settle (case resultExitCode s1 of
                   Some r \<Rightarrow> r
                 | None \<Rightarrow> (case code of Some c \<Rightarrow> c | None \<Rightarrow> 1)) s1)"
| "handle fmt s ErrorEv =
     (emit SpawnFailure s)\<lparr>outcome := (if outcome s = Pending then Rejected else outcome s)\<rparr>"

definition supervise :: "(string \<Rightarrow> stream_event) option \<Rightarrow> child_event list \<Rightarrow> supervisor" where
  "supervise fmt evs = foldl (handle fmt) spawned evs"

section \<open>Command line\<close>

datatype message =
    HelpText
  | UnknownStage string
  | UnknownAgent "string option"
  | NoTicketsFound
  | DryRunListing "ticket list"
  | Snapshotted nat
  | TicketBanner nat nat ticket string
  | AgentFailed int ticket string
  | TicketComplete nat nat ticket
  | BatchDone nat
  | RunnerFailed

text \<open>What the driver does to the outside, in the order it does it.\<close>

datatype effect =
    ConsoleLog message
  | ConsoleError message
  | Discover string
  | Mkdir string
  | WriteFile string
  | Spawn invocation ticket
  | Supervised "sup_effect list"
  | Unlink string
  | Pause nat

definition PENDING_STAGES :: "string list" where
  "PENDING_STAGES = [''fix'', ''review'', ''implement'', ''plan'']"

text \<open>
  \<open>parseStages\<close>: a selection \<open>{ stage, minPriority }\<close> is a pair. Destructuring
  \<open>token.trim().split(':')\<close> takes the first two pieces.
\<close>

definition parseStages :: "string \<Rightarrow> jsnum \<Rightarrow> (string \<times> jsnum) list" where
  "parseStages raw defaultMin =
     map (\<lambda>token.
            (let parts = split_on CHR '':'' (trim token);
                 st = hd parts;
                 pStr = (case tl parts of [] \<Rightarrow> None | p # _ \<Rightarrow> Some p)
             in (st, (case pStr of Some p \<Rightarrow> parseInt p | None \<Rightarrow> defaultMin))))
         (split_on CHR '','' raw)"

record opts =
  minPriority :: jsnum
  agent :: "string option"
  dryRun :: bool
  stagesRaw :: "string option"

record config = opts +
  stages :: "(string \<times> jsnum) list"

text \<open>
  The loop over \<open>argv\<close>. An option that takes a value reads the next argument, which is
  \<open>undefined\<close> after the last one; \<open>parseInt(undefined)\<close> is \<open>NaN\<close>. \<open>--help\<close> leaves the
  program at once with code 0 (\<open>Inl\<close>). Any other argument is skipped.
\<close>

fun parse_loop :: "opts \<Rightarrow> string list \<Rightarrow> (int \<times> effect list) + opts" where
  "parse_loop opts [] = Inr opts"
| "parse_loop opts (arg # rest) =
     (if arg = ''--min-priority''
      then (case rest of
              [] \<Rightarrow> parse_loop (opts\<lparr>minPriority := NaN\<rparr>) []
            | v # rest' \<Rightarrow> parse_loop (opts\<lparr>minPriority := parseInt v\<rparr>) rest')
      else if arg = ''--agent''
      then (case rest of
              [] \<Rightarrow> parse_loop (opts\<lparr>agent := None\<rparr>) []
            | v # rest' \<Rightarrow> parse_loop (opts\<lparr>agent := Some v\<rparr>) rest')
      else if arg = ''--dry-run''
      then parse_loop (opts\<lparr>dryRun := True\<rparr>) rest
      else if arg = ''--stages''
      then (case rest of
              [] \<Rightarrow> parse_loop (opts\<lparr>stagesRaw := None\<rparr>) []
            | v # rest' \<Rightarrow> parse_loop (opts\<lparr>stagesRaw := Some v\<rparr>) rest')
      else if arg = ''--help''
      then Inl (0, [ConsoleLog HelpText])
      else parse_loop opts rest)"

text \<open>The check of the stage names: the first unknown one ends the program with code 1.\<close>

fun check_stages :: "(string \<times> jsnum) list \<Rightarrow> string option" where
  "check_stages [] = None"
| "check_stages ((st, mp) # rest) =
     (if st \<notin> set PENDING_STAGES then Some st else check_stages rest)"

definition parseArgs :: "string list \<Rightarrow> (int \<times> effect list) + config" where
  "parseArgs argv =
     (case parse_loop \<lparr>minPriority = Num 3, agent = Some ''claude'', dryRun = False,
                        stagesRaw = None\<rparr> argv of
        Inl e \<Rightarrow> Inl e
      | Inr opts \<Rightarrow>
          (let raw = (case stagesRaw opts of
                        Some r \<Rightarrow> r
                      | None \<Rightarrow> join_with '','' PENDING_STAGES);
               sts = parseStages raw (minPriority opts)
           in case check_stages sts of
                Some bad \<Rightarrow> Inl (1, [ConsoleError (UnknownStage bad)])
              | None \<Rightarrow> Inr (opts.extend opts (config.fields sts))))"

section \<open>Pipeline driver\<close>

text \<open>
  The surroundings of one run: the working directory, the rules file, the time stamp of
  the \<open>i\<close>-th log, and what the spawned agent does: the events the supervisor receives
  from it, and the file system it leaves behind. The runner's own writes go to the log
  directory, which it never reads back; they are recorded in the trace only.
\<close>

record environment =
  cwd :: string
  rulesFile :: string
  timestamp :: "nat \<Rightarrow> string"
  child :: "invocation \<Rightarrow> ticket \<Rightarrow> filesystem \<Rightarrow> child_event list \<times> filesystem"

text \<open>
  The result of the program: its exit code (\<open>None\<close> when it never exits, because an agent
  neither closes nor fails), the trace of its effects, and the invocations of the
  supervisor with what each resolved to. The exit code is the number given to
  \<open>process.exit\<close>, or 0 when \<open>main\<close> returns.
\<close>

record run_result =
  exit_code :: "int option"
  trace :: "effect list"
  runs :: "(ticket \<times> promise) list"

definition before :: "effect list \<Rightarrow> (ticket \<times> promise) list \<Rightarrow> run_result \<Rightarrow> run_result" where
  "before es rs r = r\<lparr>trace := es @ trace r, runs := rs @ runs r\<rparr>"

definition finish :: "int option \<Rightarrow> effect list \<Rightarrow> run_result" where
  "finish code es = \<lparr>exit_code = code, trace = es, runs = []\<rparr>"

text \<open>A rejection that reaches \<open>main().catch\<close>: the error is printed and the code is 1.\<close>

definition failed :: "effect list \<Rightarrow> run_result" where
  "failed es = finish (Some 1) (es @ [ConsoleError RunnerFailed])"

text \<open>The loop of \<open>main\<close> over the stage selections, pushing what each stage yields.\<close>

fun discoverAll ::
  "filesystem \<Rightarrow> string \<Rightarrow> (string \<times> jsnum) list \<Rightarrow> effect list \<times> ticket list option" where
  "discoverAll fs ticketsDir [] = ([], Some [])"
| "discoverAll fs ticketsDir ((st, mp) # rest) =
     (case discoverTickets fs ticketsDir st mp of
        None \<Rightarrow> ([Discover st], None)
      | Some ts \<Rightarrow>
          (case discoverAll fs ticketsDir rest of
             (es, None) \<Rightarrow> (Discover st # es, None)
           | (es, Some others) \<Rightarrow> (Discover st # es, Some (ts @ others))))"

text \<open>\<open>new Map(pairs)\<close>: a later pair with the same key replaces the earlier one.\<close>

definition stageOrder :: "(string \<times> jsnum) list \<Rightarrow> string \<Rightarrow> nat option" where
  "stageOrder sts = map_of (rev (zip (map fst sts) [0 ..< length sts]))"

definition stage_index :: "(string \<Rightarrow> nat option) \<Rightarrow> ticket \<Rightarrow> int" where
  "stage_index ord t = (case ord (stage t) of Some i \<Rightarrow> int i | None \<Rightarrow> 999)"

definition stage_cmp :: "(string \<Rightarrow> nat option) \<Rightarrow> ticket \<Rightarrow> ticket \<Rightarrow> int" where
  "stage_cmp ord a b =
     (let sa = stage_index ord a; sb = stage_index ord b
      in if sa \<noteq> sb then sa - sb else priority b - priority a)"

definition run_order :: "(string \<times> jsnum) list \<Rightarrow> ticket list \<Rightarrow> ticket list" where
  "run_order sts allTickets = js_sort (stage_cmp (stageOrder sts)) allTickets"

text \<open>
  \<open>logPath\<close>: the ticket's name without its \<open>.md\<close>, the stage and the time stamp. The
  instruction file replaces the final \<open>.log\<close> by \<open>.prompt.md\<close>.
\<close>

definition strip_suffix :: "string \<Rightarrow> string \<Rightarrow> string" where
  "strip_suffix suf s = (if endsWith s suf then take (length s - length suf) s else s)"

definition logPath :: "string \<Rightarrow> ticket \<Rightarrow> string \<Rightarrow> string" where
  "logPath logsDir t ts =
     join logsDir (strip_suffix ''.md'' (file_name t) @ ''.'' @ stage t @ ''.'' @ ts @ ''.log'')"

definition instructionFile_of :: "string \<Rightarrow> string" where
  "instructionFile_of logFile =
     (if endsWith logFile ''.log'' then strip_suffix ''.log'' logFile @ ''.prompt.md'' else logFile)"

text \<open>
  \<open>buildPrompt\<close> reads the ticket and the rules; either read can fail. The prompt is kept
  as the three parts the fixed template joins.
\<close>

definition buildPrompt :: "environment \<Rightarrow> filesystem \<Rightarrow> ticket \<Rightarrow> (ticket \<times> string \<times> string) option" where
  "buildPrompt env fs t =
     (case readFile fs (path t) of
        None \<Rightarrow> None
      | Some content \<Rightarrow>
          (case readFile fs (rulesFile env) of
             None \<Rightarrow> None
           | Some rules \<Rightarrow> Some (t, rules, content)))"

text \<open>
  \<open>runAgent\<close>: an unknown agent ends the program with code 1 (\<open>ProcessExit\<close>); otherwise
  the instruction file is written, the agent is spawned and supervised, and the instruction
  file is deleted once the invocation settles. \<open>Threw\<close> is a rejection before any
  process exists: the instruction file cannot be written, or the agent name finds an
  inherited member.
\<close>

datatype agent_outcome = ProcessExit int | Threw | Settled promise

definition runAgent ::
  "platform \<Rightarrow> environment \<Rightarrow> string option \<Rightarrow> string \<Rightarrow> ticket \<Rightarrow> filesystem
     \<Rightarrow> agent_outcome \<times> effect list \<times> filesystem" where
  "runAgent P env agentName logFile t fs =
     (let instructionFile = instructionFile_of logFile
      in case agents P instructionFile (cwd env) (stage t) agentName of
           Missing \<Rightarrow> (ProcessExit 1, [ConsoleError (UnknownAgent agentName)], fs)
         | Raises \<Rightarrow>
             if \<not> writable fs instructionFile then (Threw, [], fs)
             else (Threw, [WriteFile instructionFile], fs)
         | Returns \<Rightarrow>
             if \<not> writable fs instructionFile then (Threw, [], fs)
             else (Threw, [WriteFile instructionFile, Unlink instructionFile], fs)
         | Known a \<Rightarrow>
             if \<not> writable fs instructionFile then (Threw, [], fs)
             else (let (evs, fs') = child env (invoke a) t fs;
                       s = supervise (formatStream a) evs
                   in (Settled (outcome s),
                       [WriteFile instructionFile, Spawn (invoke a) t, Supervised (effects s)]
                       @ (if outcome s = Pending then [] else [Unlink instructionFile]),
                       fs')))"

text \<open>The loop of \<open>main\<close> over the snapshot; \<open>i\<close> counts from 0, \<open>n\<close> is the snapshot's length.\<close>

fun process_tickets ::
  "platform \<Rightarrow> environment \<Rightarrow> string option \<Rightarrow> string \<Rightarrow> nat \<Rightarrow> nat \<Rightarrow> ticket list
     \<Rightarrow> filesystem \<Rightarrow> run_result" where
  "process_tickets P env agentName logsDir n i [] fs = finish (Some 0) [ConsoleLog (BatchDone n)]"
| "process_tickets P env agentName logsDir n i (t # rest) fs =
     (let currentLog = logPath logsDir t (timestamp env i);
          banner = ConsoleLog (TicketBanner (i + 1) n t currentLog)
      in if \<not> writable fs currentLog then failed [banner]
         else (case buildPrompt env fs t of
                 None \<Rightarrow> failed [banner, WriteFile currentLog]
               | Some prompt \<Rightarrow>
                   (case runAgent P env agentName currentLog t fs of
                      (ProcessExit code, es, fs') \<Rightarrow>
                        finish (Some code) ([banner, WriteFile currentLog] @ es)
                    | (Settled Pending, es, fs') \<Rightarrow>
                        before [] [(t, Pending)]
                          (finish None ([banner, WriteFile currentLog] @ es))
                    | (Threw, es, fs') \<Rightarrow> failed ([banner, WriteFile currentLog] @ es)
                    | (Settled Rejected, es, fs') \<Rightarrow>
                        before [] [(t, Rejected)] (failed ([banner, WriteFile currentLog] @ es))
                    | (Settled (Resolved code), es, fs') \<Rightarrow>
                        if code \<noteq> 0
                        then before [] [(t, Resolved code)]
                               (finish (Some code)
                                  ([banner, WriteFile currentLog] @ es
                                   @ [ConsoleError (AgentFailed code t currentLog)]))
                        else before
                               ([banner, WriteFile currentLog] @ es
                                @ [ConsoleLog (TicketComplete (i + 1) n t)]
                                @ (if rest \<noteq> [] then [Pause 500] else []))
                               [(t, Resolved code)]
                               (process_tickets P env agentName logsDir n (i + 1) rest fs'))))"

definition main :: "platform \<Rightarrow> environment \<Rightarrow> string list \<Rightarrow> filesystem \<Rightarrow> run_result" where
  "main P env argv fs =
     (case parseArgs argv of
        Inl (code, es) \<Rightarrow> finish (Some code) es
      | Inr opts \<Rightarrow>
          (let ticketsDir = join (cwd env) ''tickets''
           in case discoverAll fs ticketsDir (stages opts) of
                (es, None) \<Rightarrow> failed es
              | (es, Some allTickets) \<Rightarrow>
                  if allTickets = [] then finish (Some 0) (es @ [ConsoleLog NoTicketsFound])
                  else (let snapshot = run_order (stages opts) allTickets
                        in if dryRun opts
                           then finish (Some 0) (es @ [ConsoleLog (DryRunListing snapshot)])
                           else (let logsDir = join ticketsDir ''.logs''
                                 in if \<not> writable fs logsDir
                                    then failed (es @ [ConsoleLog (Snapshotted (length snapshot))])
                                    else before
                                           (es @ [ConsoleLog (Snapshotted (length snapshot)),
                                                  Mkdir logsDir])
                                           []
                                           (process_tickets P env (agent opts) logsDir
                                              (length snapshot) 0 snapshot fs)))))"

section \<open>Notions used to state the properties\<close>

text \<open>
  The discovery order: the tickets in the order the loops meet them, stage selection by
  stage selection and, within a directory, in the order of its listing.
\<close>

definition discovery_order :: "filesystem \<Rightarrow> string \<Rightarrow> (string \<times> jsnum) list \<Rightarrow> ticket list" where
  "discovery_order fs ticketsDir sts =
     concat (map (\<lambda>(st, mp).
                    if readable fs (join ticketsDir st)
                    then (case readdir fs (join ticketsDir st) of
                            Some entries \<Rightarrow> collect (join ticketsDir st) st mp entries
                          | None \<Rightarrow> [])
                    else []) sts)"

text \<open>The key of the run order: the stage's position, then the priority, highest first.\<close>

definition run_key :: "(string \<times> jsnum) list \<Rightarrow> ticket \<Rightarrow> int \<times> int" where
  "run_key sts t = (stage_index (stageOrder sts) t, - priority t)"

fun is_discover :: "effect \<Rightarrow> bool" where
  "is_discover (Discover st) = True"
| "is_discover e = False"


fun spawned_tickets :: "effect list \<Rightarrow> ticket list" where
  "spawned_tickets [] = []"
| "spawned_tickets (Spawn c t # es) = t # spawned_tickets es"
| "spawned_tickets (e # es) = spawned_tickets es"

text \<open>The agent names that reach an adapter or an inherited member.\<close>

definition resolvable_agents :: "string list" where
  "resolvable_agents =
     [''claude'', ''auggie'', ''cursor'', ''toString'', ''constructor'', ''isPrototypeOf'',
      ''__proto__'', ''hasOwnProperty'', ''propertyIsEnumerable'', ''toLocaleString'',
      ''valueOf'', ''__defineGetter__'', ''__defineSetter__'', ''__lookupGetter__'',
      ''__lookupSetter__'']"

text \<open>
  What a run of the supervisor reads. \<open>running\<close> are the events of a process that has
  neither closed nor failed. \<open>stdout_of\<close> is the standard output of the process, whatever
  the chunks it came in. \<open>lines_read\<close> are the lines handed to the normalizer up to the
  close: the complete lines and, when it is not empty, the unterminated rest without its
  trailing white space. \<open>last_result\<close> is the code of the last of these lines that the
  normalizer reports \<open>done\<close> for (\<open>exitCode ?? 0\<close>), if there is one.
\<close>

fun running :: "child_event \<Rightarrow> bool" where
  "running (CloseEv now code) = False"
| "running ErrorEv = False"
| "running e = True"

fun stdout_of :: "child_event list \<Rightarrow> string" where
  "stdout_of [] = []"
| "stdout_of (StdoutData now chunk # evs) = chunk @ stdout_of evs"
| "stdout_of (e # evs) = stdout_of evs"

definition complete_lines :: "string \<Rightarrow> string list" where
  "complete_lines out = butlast (split_on (CHR 0x0A) out)"

definition unfinished :: "string \<Rightarrow> string" where
  "unfinished out = last (split_on (CHR 0x0A) out)"

definition lines_read :: "string \<Rightarrow> string list" where
  "lines_read out =
     complete_lines out @ (if unfinished out \<noteq> [] then [trimEnd (unfinished out)] else [])"

definition latched_code :: "stream_event \<Rightarrow> int" where
  "latched_code ev = (case exitCode ev of Some e \<Rightarrow> e | None \<Rightarrow> 0)"

fun last_result :: "(string \<Rightarrow> stream_event) option \<Rightarrow> string list \<Rightarrow> int option" where
  "last_result fmt [] = None"
| "last_result fmt (l # ls) =
     (case last_result fmt ls of
        Some r \<Rightarrow> Some r
      | None \<Rightarrow>
          (case fmt of
             None \<Rightarrow> None
           | Some f \<Rightarrow> if is_done (f l) then Some (latched_code (f l)) else None))"

text \<open>
  One attempt of the driver at a ticket: the code the supervisor's invocation resolves
  with, and the file system the agent leaves, when the log header and the prompt can be
  written and the invocation resolves; \<open>None\<close> otherwise.
\<close>

definition attempt ::
  "platform \<Rightarrow> environment \<Rightarrow> string option \<Rightarrow> string \<Rightarrow> nat \<Rightarrow> ticket \<Rightarrow> filesystem
     \<Rightarrow> (int \<times> filesystem) option" where
  "attempt P env agentName logsDir i t fs =
     (if writable fs (logPath logsDir t (timestamp env i)) \<and> buildPrompt env fs t \<noteq> None
      then (case runAgent P env agentName (logPath logsDir t (timestamp env i)) t fs of
              (Settled (Resolved c), es, fs') \<Rightarrow> Some (c, fs')
            | other \<Rightarrow> None)
      else None)"

text \<open>
  The batch in the words of the specification: the tickets are taken in snapshot order,
  one at a time; the first one whose resolved code is not zero stops the batch, and that
  code is the exit code; when every ticket resolves 0 the exit code is 0. The result is
  the list of the tickets attempted and the exit code (\<open>None\<close> when an attempt does not
  resolve, which the specification's sentence does not cover).
\<close>

fun fail_stop ::
  "(nat \<Rightarrow> ticket \<Rightarrow> filesystem \<Rightarrow> (int \<times> filesystem) option) \<Rightarrow> nat \<Rightarrow> ticket list
     \<Rightarrow> filesystem \<Rightarrow> (ticket list \<times> int) option" where
  "fail_stop run i [] fs = Some ([], 0)"
| "fail_stop run i (t # rest) fs =
     (case run i t fs of
        None \<Rightarrow> None
      | Some (code, fs') \<Rightarrow>
          if code \<noteq> 0 then Some ([t], code)
          else (case fail_stop run (i + 1) rest fs' of
                  None \<Rightarrow> None
                | Some (ts, c) \<Rightarrow> Some (t # ts, c)))"

text \<open>
  A value with no leading integer: after white space and one sign, no decimal digit.
\<close>

definition no_leading_integer :: "string \<Rightarrow> bool" where
  "no_leading_integer v =
     (let t = dropWhile is_space v;
          u = (if t \<noteq> [] \<and> (hd t = CHR ''-'' \<or> hd t = CHR ''+'') then tl t else t)
      in u = [] \<or> \<not> is_digit (hd u))"

text \<open>
  A list of arguments in which every option that takes a value is followed by one, so
  that the argument after the list is read as an option.
\<close>

fun options_complete :: "string list \<Rightarrow> bool" where
  "options_complete [] = True"
| "options_complete (arg # rest) =
     (if arg = ''--min-priority'' \<or> arg = ''--agent'' \<or> arg = ''--stages''
      then (case rest of [] \<Rightarrow> False | v # rest' \<Rightarrow> options_complete rest')
      else options_complete rest)"

section \<open>Sample inputs\<close>

text \<open>
  A repository with two stage directories. \<open>notes.md\<close> has no priority prefix and
  \<open>2-low.md\<close> lies below the default threshold.
\<close>

definition sample_fs :: filesystem where
  "sample_fs =
     \<lparr>readable = (\<lambda>p. p \<in> set [''/repo/tickets/fix'', ''/repo/tickets/implement'']),
      readdir = (\<lambda>p. if p = ''/repo/tickets/fix''
                      then Some [''3-c.md'', ''5-a.md'', ''notes.md'', ''2-low.md'']
                      else if p = ''/repo/tickets/implement'' then Some [''5-b.md'']
                      else None),
      readFile = (\<lambda>p. Some ''text''),
      writable = (\<lambda>p. True)\<rparr>"

text \<open>The three tickets of the ordering example, and nothing else.\<close>

definition three_fs :: filesystem where
  "three_fs =
     \<lparr>readable = (\<lambda>p. p \<in> set [''/repo/tickets/fix'', ''/repo/tickets/implement'']),
      readdir = (\<lambda>p. if p = ''/repo/tickets/fix'' then Some [''3-c.md'', ''5-a.md'']
                      else if p = ''/repo/tickets/implement'' then Some [''5-b.md'']
                      else None),
      readFile = (\<lambda>p. Some ''text''),
      writable = (\<lambda>p. True)\<rparr>"

definition ticket_5a :: ticket where
  "ticket_5a = \<lparr>file_name = ''5-a.md'', path = ''/repo/tickets/fix/5-a.md'', stage = ''fix'',
                 priority = 5\<rparr>"

definition ticket_3c :: ticket where
  "ticket_3c = \<lparr>file_name = ''3-c.md'', path = ''/repo/tickets/fix/3-c.md'', stage = ''fix'',
                 priority = 3\<rparr>"

definition ticket_5b :: ticket where
  "ticket_5b = \<lparr>file_name = ''5-b.md'', path = ''/repo/tickets/implement/5-b.md'',
                 stage = ''implement'', priority = 5\<rparr>"

text \<open>The configuration that \<open>--stages fix,implement\<close> gives.\<close>

definition fix_implement :: config where
  "fix_implement =
     \<lparr>minPriority = Num 3, agent = Some ''claude'', dryRun = False,
      stagesRaw = Some ''fix,implement'',
      stages = [(''fix'', Num 3), (''implement'', Num 3)]\<rparr>"

definition ok_line :: string where
  "ok_line = ''{'' @ [CHR 0x22] @ ''type'' @ [CHR 0x22] @ '':'' @ [CHR 0x22] @ ''result''
             @ [CHR 0x22] @ '','' @ [CHR 0x22] @ ''is_error'' @ [CHR 0x22] @ '':false}''"

definition error_line :: string where
  "error_line = ''{'' @ [CHR 0x22] @ ''type'' @ [CHR 0x22] @ '':'' @ [CHR 0x22] @ ''result''
                @ [CHR 0x22] @ '','' @ [CHR 0x22] @ ''is_error'' @ [CHR 0x22] @ '':true}''"

text \<open>
  A platform that knows the two result lines above, \<open>{"type":"result","is_error":false}\<close>
  and \<open>{"type":"result","is_error":true}\<close>, as \<open>JSON.parse\<close> reads them.
\<close>

definition sample_platform :: platform where
  "sample_platform =
     \<lparr>JSON_parse = (\<lambda>s. if s = ok_line
                         then Some (JObj [(''type'', JStr ''result''), (''is_error'', JBool False)])
                         else if s = error_line
                         then Some (JObj [(''type'', JStr ''result''), (''is_error'', JBool True)])
                         else None),
      claude_text = (\<lambda>obj line. line),
      result_text = (\<lambda>obj. ''[RESULT]''),
      cursor_text = (\<lambda>line. line)\<rparr>"

text \<open>
  An agent that reports success on every ticket, exits with code 0, and leaves a new
  ticket \<open>5-new.md\<close> in the \<open>implement\<close> directory.
\<close>

definition sample_env :: environment where
  "sample_env =
     \<lparr>cwd = ''/repo'',
      rulesFile = ''/repo/tess/agent-rules/tickets.md'',
      timestamp = (\<lambda>i. ''T''),
      child = (\<lambda>c t fs.
                 ([StdoutData 5 (ok_line @ [CHR 0x0A]), CloseEv 9 (Some 0)],
                  fs\<lparr>readdir := (\<lambda>p. if p = ''/repo/tickets/implement''
                                       then Some [''5-b.md'', ''5-new.md'']
                                       else readdir fs p)\<rparr>))\<rparr>"

text \<open>An agent whose first answer is an error result.\<close>

definition failing_env :: environment where
  "failing_env =
     \<lparr>cwd = ''/repo'',
      rulesFile = ''/repo/tess/agent-rules/tickets.md'',
      timestamp = (\<lambda>i. ''T''),
      child = (\<lambda>c t fs. ([StdoutData 5 (error_line @ [CHR 0x0A]), CloseEv 9 (Some 0)], fs))\<rparr>"

text \<open>
  A result line with the error flag set and the cost given as a string,
  \<open>{"type":"result","is_error":true,"total_cost_usd":"0.10"}\<close>, and a platform that reads it.
\<close>

definition cost_line :: string where
  "cost_line = ''{'' @ [CHR 0x22] @ ''type'' @ [CHR 0x22] @ '':'' @ [CHR 0x22] @ ''result''
               @ [CHR 0x22] @ '','' @ [CHR 0x22] @ ''is_error'' @ [CHR 0x22] @ '':true,''
               @ [CHR 0x22] @ ''total_cost_usd'' @ [CHR 0x22] @ '':'' @ [CHR 0x22] @ ''0.10''
               @ [CHR 0x22] @ ''}''"

definition cost_platform :: platform where
  "cost_platform =
     \<lparr>JSON_parse = (\<lambda>s. if s = cost_line
                         then Some (JObj [(''type'', JStr ''result''), (''is_error'', JBool True),
                                          (''total_cost_usd'', JStr ''0.10'')])
                         else None),
      claude_text = (\<lambda>obj line. line),
      result_text = (\<lambda>obj. ''[RESULT]''),
      cursor_text = (\<lambda>line. line)\<rparr>"

text \<open>An agent that succeeds on \<open>5-a.md\<close> and reports an error on every other ticket.\<close>

definition second_fails_env :: environment where
  "second_fails_env =
     \<lparr>cwd = ''/repo'',
      rulesFile = ''/repo/tess/agent-rules/tickets.md'',
      timestamp = (\<lambda>i. ''T''),
      child = (\<lambda>c t fs.
                 (if file_name t = ''5-a.md''
                  then [StdoutData 5 (ok_line @ [CHR 0x0A]), CloseEv 9 (Some 0)]
                  else [StdoutData 5 (error_line @ [CHR 0x0A]), CloseEv 9 (Some 0)],
                  fs))\<rparr>"

section \<open>Discovery\<close>

lemma set_insert_cmp: "set (insert_cmp cmp x ys) = insert x (set ys)"
  by (induction ys) auto

lemma set_js_sort: "set (js_sort cmp xs) = set xs"
  by (induction xs) (auto simp: js_sort_def set_insert_cmp)

lemma collect_iff:
  "t \<in> set (collect sd st mp es) \<longleftrightarrow>
     (\<exists>e \<in> set es. endsWith e ''.md'' \<and> PRIORITY_PREFIX_test e \<and> \<not> js_lt (parsePriority e) mp
        \<and> t = \<lparr>file_name = e, path = join sd e, stage = st, priority = parsePriority e\<rparr>)"
  by (induction es) auto

lemma collect_names:
  "e \<in> set (map file_name (collect sd st mp es)) \<longleftrightarrow>
     (e \<in> set es \<and> endsWith e ''.md'' \<and> PRIORITY_PREFIX_test e \<and> \<not> js_lt (parsePriority e) mp)"
  by (induction es) auto

lemma discoverTickets_names:
  assumes "readable fs (join dir st)" and "readdir fs (join dir st) = Some entries"
  shows "\<exists>ts. discoverTickets fs dir st mp = Some ts
           \<and> set ts = set (collect (join dir st) st mp entries)"
  using assms by (simp add: discoverTickets_def set_js_sort)

text \<open>
  Claim C4. In a readable stage directory and for a numeric threshold \<open>n\<close>, an entry is a
  ticket exactly when its name ends in \<open>.md\<close>, matches the priority prefix \<open>^\d+-\<close> and its
  parsed priority is at least \<open>n\<close>. So a name without the prefix is never a ticket, and a
  ticket below the threshold is left out. (The threshold \<open>NaN\<close> is the subject of C10.)
\<close>

theorem discoverTickets_includes_iff:
  assumes "readable fs (join dir st)" and "readdir fs (join dir st) = Some entries"
  shows "\<exists>ts. discoverTickets fs dir st (Num n) = Some ts
           \<and> (\<forall>e. e \<in> set (map file_name ts) \<longleftrightarrow>
                  (e \<in> set entries \<and> endsWith e ''.md'' \<and> PRIORITY_PREFIX_test e
                   \<and> n \<le> parsePriority e))
           \<and> (\<forall>e. \<not> PRIORITY_PREFIX_test e \<longrightarrow> e \<notin> set (map file_name ts))
           \<and> (\<forall>e. parsePriority e < n \<longrightarrow> e \<notin> set (map file_name ts))
           \<and> (\<forall>t \<in> set ts. stage t = st \<and> priority t = parsePriority (file_name t))"
proof -
  from discoverTickets_names [OF assms, of "Num n"] obtain ts where
    ts: "discoverTickets fs dir st (Num n) = Some ts"
    and sets: "set ts = set (collect (join dir st) st (Num n) entries)" by blast
  have names: "set (map file_name ts) = set (map file_name (collect (join dir st) st (Num n) entries))"
    using sets by simp
  have iff: "e \<in> set (map file_name ts) \<longleftrightarrow>
     (e \<in> set entries \<and> endsWith e ''.md'' \<and> PRIORITY_PREFIX_test e \<and> n \<le> parsePriority e)" for e
    unfolding names collect_names by auto
  have fields: "\<forall>t \<in> set ts. stage t = st \<and> priority t = parsePriority (file_name t)"
    unfolding sets by (auto simp: collect_iff)
  show ?thesis using ts iff fields by auto
qed


lemmas name_eval = endsWith_def PRIORITY_PREFIX_test_def PRIORITY_PREFIX_match_def is_digit_def
  parsePriority_def basename_def digits_value_def digit_val_def

theorem discoverTickets_includes_iff_witness:
  "readable sample_fs (join ''/repo/tickets'' ''fix'')
   \<and> readdir sample_fs (join ''/repo/tickets'' ''fix'')
       = Some [''3-c.md'', ''5-a.md'', ''notes.md'', ''2-low.md'']
   \<and> (\<exists>ts. discoverTickets sample_fs ''/repo/tickets'' ''fix'' (Num 3) = Some ts
          \<and> ''5-a.md'' \<in> set (map file_name ts) \<and> ''3-c.md'' \<in> set (map file_name ts)
          \<and> ''notes.md'' \<notin> set (map file_name ts) \<and> ''2-low.md'' \<notin> set (map file_name ts))"
proof -
  have r: "readable sample_fs (join ''/repo/tickets'' ''fix'')"
    by (simp add: sample_fs_def join_def)
  have d: "readdir sample_fs (join ''/repo/tickets'' ''fix'')
             = Some [''3-c.md'', ''5-a.md'', ''notes.md'', ''2-low.md'']"
    by (simp add: sample_fs_def join_def)
  from discoverTickets_includes_iff [OF r d, of 3] obtain ts where
    ts: "discoverTickets sample_fs ''/repo/tickets'' ''fix'' (Num 3) = Some ts"
    and iff: "\<And>e. e \<in> set (map file_name ts) \<longleftrightarrow>
                (e \<in> set [''3-c.md'', ''5-a.md'', ''notes.md'', ''2-low.md''] \<and> endsWith e ''.md''
                 \<and> PRIORITY_PREFIX_test e \<and> 3 \<le> parsePriority e)"
    by blast
  have a: "''5-a.md'' \<in> set (map file_name ts)" unfolding iff by (simp add: name_eval)
  have c: "''3-c.md'' \<in> set (map file_name ts)" unfolding iff by (simp add: name_eval)
  have n: "''notes.md'' \<notin> set (map file_name ts)" unfolding iff by (simp add: name_eval)
  have l: "''2-low.md'' \<notin> set (map file_name ts)" unfolding iff by (simp add: name_eval)
  show ?thesis using r d ts a c n l by blast
qed

section \<open>The command line\<close>

lemma default_stages:
  "parseStages (join_with '','' PENDING_STAGES) d = map (\<lambda>s. (s, d)) PENDING_STAGES"
  by (simp add: parseStages_def PENDING_STAGES_def trim_def is_space_def)

lemma check_default: "check_stages (map (\<lambda>s. (s, d)) PENDING_STAGES) = None"
  by (simp add: PENDING_STAGES_def)

lemma split_on_nonempty: "split_on c s \<noteq> []"
  by (induction s) (auto split: list.splits)

lemma split_on_pieces: "p \<in> set (split_on c s) \<Longrightarrow> set p \<subseteq> set s"
proof (induction s arbitrary: p)
  case Nil
  then show ?case by simp
next
  case (Cons x xs)
  show ?case
  proof (cases "x = c")
    case True
    with Cons show ?thesis by auto
  next
    case False
    obtain q qs where q: "split_on c xs = q # qs"
      using split_on_nonempty [of c xs] by (cases "split_on c xs") auto
    with Cons.prems False have "p = x # q \<or> p \<in> set qs" by auto
    then show ?thesis using Cons.IH [of q] Cons.IH [of p] q by auto
  qed
qed

lemma split_on_absent: "c \<notin> set s \<Longrightarrow> split_on c s = [s]"
  by (induction s) auto

lemma set_trim: "set (trim s) \<subseteq> set s"
proof -
  have "x \<in> set (dropWhile is_space (rev (dropWhile is_space s))) \<Longrightarrow> x \<in> set s" for x
    by (auto dest!: set_dropWhileD)
  then show ?thesis by (auto simp: trim_def)
qed

lemma parseStages_bare:
  assumes "CHR '':'' \<notin> set raw" and "sel \<in> set (parseStages raw d)"
  shows "snd sel = d"
proof -
  from assms(2) obtain token where tok: "token \<in> set (split_on CHR '','' raw)"
    and sel: "sel = (let parts = split_on CHR '':'' (trim token);
                 st = hd parts;
                 pStr = (case tl parts of [] \<Rightarrow> None | p # _ \<Rightarrow> Some p)
             in (st, (case pStr of Some p \<Rightarrow> parseInt p | None \<Rightarrow> d)))"
    by (auto simp: parseStages_def)
  have "CHR '':'' \<notin> set (trim token)"
    using split_on_pieces [OF tok] set_trim [of token] assms(1) by blast
  then have "split_on CHR '':'' (trim token) = [trim token]" by (rule split_on_absent)
  with sel show ?thesis by simp
qed

lemma parse_loop_keeps_stages:
  "''--stages'' \<notin> set argv \<Longrightarrow> ''--help'' \<notin> set argv
     \<Longrightarrow> \<exists>opts'. parse_loop opts argv = Inr opts' \<and> stagesRaw opts' = stagesRaw opts"
proof (induction opts argv rule: parse_loop.induct)
  case (1 opts)
  then show ?case by simp
next
  case (2 opts arg rest)
  show ?case
  proof (cases rest)
    case Nil
    with 2 show ?thesis by auto
  next
    case (Cons v rest')
    with 2 show ?thesis by auto
  qed
qed

section \<open>The run order\<close>

lemma js_sort_is_sort_key:
  fixes k :: "'a \<Rightarrow> 'k::linorder"
  assumes "\<And>a b. cmp a b \<le> 0 \<longleftrightarrow> k a \<le> k b"
  shows "js_sort cmp xs = sort_key k xs"
proof -
  have ins: "insert_cmp cmp x ys = insort_key k x ys" for x ys
    by (induction ys) (simp_all add: assms)
  show ?thesis
    by (induction xs) (simp_all add: js_sort_def ins)
qed

lemma priority_sort: "js_sort (\<lambda>a b. priority b - priority a) xs = sort_key (\<lambda>t. - priority t) xs"
  by (rule js_sort_is_sort_key) simp

lemma run_order_sort: "run_order sts xs = sort_key (run_key sts) xs"
  unfolding run_order_def
  by (rule js_sort_is_sort_key) (auto simp: stage_cmp_def run_key_def Let_def)

lemma filter_key_priority_sort:
  "filter (\<lambda>t. run_key sts t = k) (sort_key (\<lambda>t. - priority t) xs) = filter (\<lambda>t. run_key sts t = k) xs"
proof -
  have split: "filter (\<lambda>t. run_key sts t = k) ys
       = filter (\<lambda>t. stage_index (stageOrder sts) t = fst k) (filter (\<lambda>t. - priority t = snd k) ys)" for ys
    by (induction ys) (auto simp: run_key_def prod_eq_iff)
  show ?thesis
    unfolding split sort_key_stable ..
qed

lemma discoverTickets_sorted:
  assumes "discoverTickets fs dir st mp = Some ts"
  shows "ts = sort_key (\<lambda>t. - priority t) (discovery_order fs dir [(st, mp)])"
  using assms
  by (auto simp: discoverTickets_def discovery_order_def priority_sort Let_def
           split: if_splits option.splits)

lemma discovery_order_Cons:
  "discovery_order fs dir (x # sts) = discovery_order fs dir [x] @ discovery_order fs dir sts"
  by (simp add: discovery_order_def)

lemma discoverAll_stable:
  "snd (discoverAll fs dir sts) = Some allTickets
     \<Longrightarrow> filter (\<lambda>t. run_key sts' t = k) allTickets
         = filter (\<lambda>t. run_key sts' t = k) (discovery_order fs dir sts)"
proof (induction sts arbitrary: allTickets)
  case Nil
  then show ?case by (simp add: discovery_order_def)
next
  case (Cons x sts)
  obtain st mp where x: "x = (st, mp)" by (cases x)
  from Cons.prems x obtain ts others where
    ts: "discoverTickets fs dir st mp = Some ts"
    and others: "snd (discoverAll fs dir sts) = Some others"
    and all: "allTickets = ts @ others"
    by (auto split: option.splits prod.splits)
  have "discovery_order fs dir (x # sts) = discovery_order fs dir [(st, mp)] @ discovery_order fs dir sts"
    unfolding x by (rule discovery_order_Cons)
  then show ?case
    unfolding all
    by (simp add: Cons.IH [OF others] discoverTickets_sorted [OF ts] filter_key_priority_sort)
qed

lemma discoverAll_mset:
  "snd (discoverAll fs dir sts) = Some allTickets
     \<Longrightarrow> mset allTickets = mset (discovery_order fs dir sts)"
proof (induction sts arbitrary: allTickets)
  case Nil
  then show ?case by (simp add: discovery_order_def)
next
  case (Cons x sts)
  obtain st mp where x: "x = (st, mp)" by (cases x)
  from Cons.prems x obtain ts others where
    ts: "discoverTickets fs dir st mp = Some ts"
    and others: "snd (discoverAll fs dir sts) = Some others"
    and all: "allTickets = ts @ others"
    by (auto split: option.splits prod.splits)
  have "discovery_order fs dir (x # sts) = discovery_order fs dir [(st, mp)] @ discovery_order fs dir sts"
    unfolding x by (rule discovery_order_Cons)
  then show ?case
    unfolding all
    by (simp add: Cons.IH [OF others] discoverTickets_sorted [OF ts])
qed

lemma stageOrder_position:
  assumes "distinct (map fst sts)" and "i < length sts"
  shows "stageOrder sts (fst (sts ! i)) = Some i"
proof -
  let ?zs = "zip (map fst sts) [0 ..< length sts]"
  have "(fst (sts ! i), i) \<in> set ?zs"
    using assms(2) by (force simp: in_set_zip)
  moreover have "distinct (map fst (rev ?zs))"
    using assms(1) by (simp add: rev_map [symmetric])
  ultimately show ?thesis
    unfolding stageOrder_def by (intro map_of_is_SomeI) simp_all
qed


lemma parse_fix_implement:
  "parseArgs [''--stages'', ''fix,implement'']
     = Inr \<lparr>minPriority = Num 3, agent = Some ''claude'', dryRun = False,
            stagesRaw = Some ''fix,implement'',
            stages = [(''fix'', Num 3), (''implement'', Num 3)]\<rparr>"
  by (simp add: parseArgs_def parseStages_def trim_def is_space_def PENDING_STAGES_def
        opts.extend_def config.fields_def)

lemma discover_three:
  "snd (discoverAll three_fs ''/repo/tickets'' [(''fix'', Num 3), (''implement'', Num 3)])
     = Some [\<lparr>file_name = ''5-a.md'', path = ''/repo/tickets/fix/5-a.md'', stage = ''fix'',
               priority = 5\<rparr>,
             \<lparr>file_name = ''3-c.md'', path = ''/repo/tickets/fix/3-c.md'', stage = ''fix'',
               priority = 3\<rparr>,
             \<lparr>file_name = ''5-b.md'', path = ''/repo/tickets/implement/5-b.md'',
               stage = ''implement'', priority = 5\<rparr>]"
  by (simp add: discoverTickets_def three_fs_def join_def js_sort_def name_eval)

lemma order_three:
  "map path
     (run_order [(''fix'', Num 3), (''implement'', Num 3)]
        [\<lparr>file_name = ''5-a.md'', path = ''/repo/tickets/fix/5-a.md'', stage = ''fix'',
               priority = 5\<rparr>,
             \<lparr>file_name = ''3-c.md'', path = ''/repo/tickets/fix/3-c.md'', stage = ''fix'',
               priority = 3\<rparr>,
             \<lparr>file_name = ''5-b.md'', path = ''/repo/tickets/implement/5-b.md'',
               stage = ''implement'', priority = 5\<rparr>])
     = [''/repo/tickets/fix/5-a.md'', ''/repo/tickets/fix/3-c.md'',
        ''/repo/tickets/implement/5-b.md'']"
  by (simp add: run_order_def js_sort_def stage_cmp_def stage_index_def stageOrder_def
        upt_rec [of 0] upt_rec [of 1] upt_rec [of 2])

text \<open>
  Claim C3. The run order holds the discovered tickets, sorted by the position of their
  stage in the stage list and then by descending priority, and tickets with the same
  stage position and priority keep their discovery order. With the stage list
  \<open>fix,implement\<close> and the tickets \<open>fix/5-a.md\<close>, \<open>implement/5-b.md\<close>, \<open>fix/3-c.md\<close> the run order
  is \<open>fix/5-a.md\<close>, \<open>fix/3-c.md\<close>, \<open>implement/5-b.md\<close>.
\<close>

theorem run_order_by_stage_then_priority:
  assumes "snd (discoverAll fs dir sts) = Some allTickets"
  shows "mset (run_order sts allTickets) = mset (discovery_order fs dir sts)
       \<and> sorted (map (run_key sts) (run_order sts allTickets))
       \<and> (\<forall>k. filter (\<lambda>t. run_key sts t = k) (run_order sts allTickets)
                = filter (\<lambda>t. run_key sts t = k) (discovery_order fs dir sts))
       \<and> (distinct (map fst sts) \<longrightarrow>
            (\<forall>i < length sts. \<forall>t. stage t = fst (sts ! i)
                \<longrightarrow> stage_index (stageOrder sts) t = int i))
       \<and> (\<exists>cfg three.
             parseArgs [''--stages'', ''fix,implement''] = Inr cfg
             \<and> snd (discoverAll three_fs ''/repo/tickets'' (stages cfg)) = Some three
             \<and> map path (run_order (stages cfg) three)
                 = [''/repo/tickets/fix/5-a.md'', ''/repo/tickets/fix/3-c.md'',
                    ''/repo/tickets/implement/5-b.md''])"
proof -
  have perm: "mset (run_order sts allTickets) = mset (discovery_order fs dir sts)"
    by (simp add: run_order_sort discoverAll_mset [OF assms])
  have srt: "sorted (map (run_key sts) (run_order sts allTickets))"
    by (simp add: run_order_sort)
  have stable: "filter (\<lambda>t. run_key sts t = k) (run_order sts allTickets)
                = filter (\<lambda>t. run_key sts t = k) (discovery_order fs dir sts)" for k
    by (simp add: run_order_sort sort_key_stable discoverAll_stable [OF assms])
  have pos: "distinct (map fst sts) \<longrightarrow>
            (\<forall>i < length sts. \<forall>t. stage t = fst (sts ! i)
                \<longrightarrow> stage_index (stageOrder sts) t = int i)"
    by (simp add: stage_index_def stageOrder_position)
  have ex: "\<exists>cfg three.
             parseArgs [''--stages'', ''fix,implement''] = Inr cfg
             \<and> snd (discoverAll three_fs ''/repo/tickets'' (stages cfg)) = Some three
             \<and> map path (run_order (stages cfg) three)
                 = [''/repo/tickets/fix/5-a.md'', ''/repo/tickets/fix/3-c.md'',
                    ''/repo/tickets/implement/5-b.md'']"
    using parse_fix_implement discover_three order_three by force
  show ?thesis using perm srt stable pos ex by blast
qed


theorem run_order_by_stage_then_priority_witness:
  "snd (discoverAll three_fs ''/repo/tickets'' [(''fix'', Num 3), (''implement'', Num 3)])
     = Some [\<lparr>file_name = ''5-a.md'', path = ''/repo/tickets/fix/5-a.md'', stage = ''fix'',
               priority = 5\<rparr>,
             \<lparr>file_name = ''3-c.md'', path = ''/repo/tickets/fix/3-c.md'', stage = ''fix'',
               priority = 3\<rparr>,
             \<lparr>file_name = ''5-b.md'', path = ''/repo/tickets/implement/5-b.md'',
               stage = ''implement'', priority = 5\<rparr>]
   \<and> sorted (map (run_key [(''fix'', Num 3), (''implement'', Num 3)])
        (run_order [(''fix'', Num 3), (''implement'', Num 3)]
           [\<lparr>file_name = ''5-a.md'', path = ''/repo/tickets/fix/5-a.md'', stage = ''fix'',
               priority = 5\<rparr>,
             \<lparr>file_name = ''3-c.md'', path = ''/repo/tickets/fix/3-c.md'', stage = ''fix'',
               priority = 3\<rparr>,
             \<lparr>file_name = ''5-b.md'', path = ''/repo/tickets/implement/5-b.md'',
               stage = ''implement'', priority = 5\<rparr>]))"
  using run_order_by_stage_then_priority [OF discover_three] discover_three by blast

text \<open>
  Claim C9. Without \<open>--stages\<close> (and without \<open>--help\<close>, which ends the program first) the
  stage selections are \<open>fix\<close>, \<open>review\<close>, \<open>implement\<close>, \<open>plan\<close> in this order, each with the
  global minimum priority, and in the run order every \<open>review\<close> ticket comes before every
  \<open>implement\<close> and every \<open>plan\<close> ticket.
\<close>

theorem default_stage_order:
  assumes "''--stages'' \<notin> set argv" and "''--help'' \<notin> set argv"
  shows "\<exists>cfg. parseArgs argv = Inr cfg
           \<and> stages cfg = [(''fix'', minPriority cfg), (''review'', minPriority cfg),
                            (''implement'', minPriority cfg), (''plan'', minPriority cfg)]
           \<and> (\<forall>ts i j. i < length ts \<and> j < length ts
                  \<and> stage (run_order (stages cfg) ts ! i) = ''review''
                  \<and> stage (run_order (stages cfg) ts ! j) \<in> {''implement'', ''plan''}
                \<longrightarrow> i < j)"
proof -
  let ?init = "\<lparr>minPriority = Num 3, agent = Some ''claude'', dryRun = False, stagesRaw = None\<rparr>"
  from parse_loop_keeps_stages [OF assms, of ?init] obtain opts' where
    loop: "parse_loop ?init argv = Inr opts'" and raw: "stagesRaw opts' = None" by auto
  let ?sts = "map (\<lambda>s. (s, minPriority opts')) PENDING_STAGES"
  let ?cfg = "opts.extend opts' (config.fields ?sts)"
  have parsed: "parseArgs argv = Inr ?cfg"
    by (simp add: parseArgs_def loop raw default_stages check_default)
  have sts: "stages ?cfg = [(''fix'', minPriority ?cfg), (''review'', minPriority ?cfg),
                            (''implement'', minPriority ?cfg), (''plan'', minPriority ?cfg)]"
    by (simp add: opts.extend_def config.fields_def PENDING_STAGES_def)
  have idx: "stage_index (stageOrder (stages ?cfg)) t
               = (if stage t = ''plan'' then 3 else if stage t = ''implement'' then 2
                  else if stage t = ''review'' then 1 else if stage t = ''fix'' then 0 else 999)" for t
    unfolding sts
    by (simp add: stage_index_def stageOrder_def upt_rec [of 0] upt_rec [of 1] upt_rec [of 2]
          upt_rec [of 3])
  have before: "i < j"
    if "i < length ts" "j < length ts"
       "stage (run_order (stages ?cfg) ts ! i) = ''review''"
       "stage (run_order (stages ?cfg) ts ! j) \<in> {''implement'', ''plan''}" for ts i j
  proof (rule ccontr)
    assume "\<not> i < j"
    then have ji: "j \<le> i" by simp
    let ?ro = "run_order (stages ?cfg) ts"
    have len: "length ?ro = length ts" by (simp add: run_order_sort)
    have "sorted (map (run_key (stages ?cfg)) ?ro)" by (simp add: run_order_sort)
    then have "map (run_key (stages ?cfg)) ?ro ! j \<le> map (run_key (stages ?cfg)) ?ro ! i"
      using ji that(1) len by (intro sorted_nth_mono) simp_all
    then have "run_key (stages ?cfg) (?ro ! j) \<le> run_key (stages ?cfg) (?ro ! i)"
      using that(1,2) len by simp
    then have "stage_index (stageOrder (stages ?cfg)) (?ro ! j)
                 \<le> stage_index (stageOrder (stages ?cfg)) (?ro ! i)"
      by (auto simp: run_key_def)
    with that(3,4) show False unfolding idx by auto
  qed
  show ?thesis using parsed sts before by blast
qed

theorem default_stage_order_witness:
  "''--stages'' \<notin> set [''--min-priority'', ''4''] \<and> ''--help'' \<notin> set [''--min-priority'', ''4'']
   \<and> (\<exists>cfg. parseArgs [''--min-priority'', ''4''] = Inr cfg
          \<and> stages cfg = [(''fix'', minPriority cfg), (''review'', minPriority cfg),
                           (''implement'', minPriority cfg), (''plan'', minPriority cfg)])"
proof -
  have a: "''--stages'' \<notin> set [''--min-priority'', ''4'']" by simp
  have b: "''--help'' \<notin> set [''--min-priority'', ''4'']" by simp
  from default_stage_order [OF a b] a b show ?thesis by blast
qed

section \<open>The driver's loop\<close>

lemma spawned_tickets_append:
  "spawned_tickets (a @ b) = spawned_tickets a @ spawned_tickets b"
  by (induction a rule: spawned_tickets.induct) simp_all

lemma runAgent_no_discover:
  assumes "runAgent P env agentName logFile t fs = (oc, es, fs')"
  shows "\<forall>e \<in> set es. \<not> is_discover e"
  using assms
  by (auto simp: runAgent_def Let_def split: agent_lookup.splits if_splits prod.splits)

lemma runAgent_spawns:
  assumes "runAgent P env agentName logFile t fs = (oc, es, fs')"
  shows "spawned_tickets es = (case oc of Settled p \<Rightarrow> [t] | _ \<Rightarrow> [])"
  using assms
  by (auto simp: runAgent_def Let_def split: agent_lookup.splits if_splits prod.splits)

text \<open>One turn of the loop: it ends the batch, or it goes on with the rest.\<close>

lemma process_tickets_turn:
  fixes P env agentName logsDir n i t rest fs
  defines "r \<equiv> process_tickets P env agentName logsDir n i (t # rest) fs"
  shows "(runs r = [] \<and> exit_code r = Some 1 \<and> spawned_tickets (trace r) = []
          \<and> (\<forall>e \<in> set (trace r). \<not> is_discover e))
       \<or> (\<exists>p. runs r = [(t, p)] \<and> p \<noteq> Resolved 0 \<and> spawned_tickets (trace r) = [t]
              \<and> exit_code r = (case p of Pending \<Rightarrow> None | Rejected \<Rightarrow> Some 1
                                | Resolved c \<Rightarrow> Some c)
              \<and> (\<forall>e \<in> set (trace r). \<not> is_discover e))
       \<or> (\<exists>fs'. runs r = (t, Resolved 0) # runs (process_tickets P env agentName logsDir n (i + 1) rest fs')
              \<and> exit_code r = exit_code (process_tickets P env agentName logsDir n (i + 1) rest fs')
              \<and> spawned_tickets (trace r)
                   = t # spawned_tickets (trace (process_tickets P env agentName logsDir n (i + 1) rest fs'))
              \<and> (\<exists>es. trace r = es @ trace (process_tickets P env agentName logsDir n (i + 1) rest fs')
                     \<and> (\<forall>e \<in> set es. \<not> is_discover e)))"
proof -
  let ?log = "logPath logsDir t (timestamp env i)"
  show ?thesis
  proof (cases "writable fs ?log \<and> buildPrompt env fs t \<noteq> None")
    case False
    show ?thesis
    proof (cases "writable fs ?log")
      case no: False
      then show ?thesis by (simp add: r_def Let_def failed_def finish_def)
    next
      case True
      with False have "buildPrompt env fs t = None"
        by (cases "buildPrompt env fs t") simp_all
      with True show ?thesis by (simp add: r_def Let_def failed_def finish_def)
    qed
  next
    case True
    then obtain prompt where w: "writable fs ?log" and bp: "buildPrompt env fs t = Some prompt"
      by auto
    obtain oc es fs' where ra: "runAgent P env agentName ?log t fs = (oc, es, fs')"
      by (cases "runAgent P env agentName ?log t fs") auto
    note sp = runAgent_spawns [OF ra] runAgent_no_discover [OF ra]
    show ?thesis
    proof (cases oc)
      case (ProcessExit code)
      then have "code = 1" using ra
        by (auto simp: runAgent_def Let_def split: agent_lookup.splits if_splits prod.splits)
      with ProcessExit show ?thesis using w bp ra sp
        by (simp add: r_def Let_def finish_def spawned_tickets_append)
    next
      case Threw
      then show ?thesis using w bp ra sp
        by (simp add: r_def Let_def failed_def finish_def spawned_tickets_append)
    next
      case (Settled p)
      show ?thesis
      proof (cases p)
        case Pending
        with Settled show ?thesis using w bp ra sp
          by (simp add: r_def Let_def before_def finish_def spawned_tickets_append)
      next
        case Rejected
        with Settled show ?thesis using w bp ra sp
          by (simp add: r_def Let_def before_def failed_def finish_def spawned_tickets_append)
      next
        case (Resolved c)
        show ?thesis
        proof (cases "c = 0")
          case True
          let ?r' = "process_tickets P env agentName logsDir n (i + 1) rest fs'"
          let ?es = "[ConsoleLog (TicketBanner (i + 1) n t ?log), WriteFile ?log] @ es
                     @ [ConsoleLog (TicketComplete (i + 1) n t)]
                     @ (if rest \<noteq> [] then [Pause 500] else [])"
          have r: "r = before ?es [(t, Resolved 0)] ?r'"
            using True Settled Resolved w bp ra by (simp add: r_def Let_def)
          have nd: "\<forall>e \<in> set ?es. \<not> is_discover e" using sp by auto
          have st: "spawned_tickets ?es = [t]"
            using sp Settled by (simp add: spawned_tickets_append)
          have "runs r = (t, Resolved 0) # runs ?r'" "exit_code r = exit_code ?r'"
            "spawned_tickets (trace r) = t # spawned_tickets (trace ?r')"
            "trace r = ?es @ trace ?r'"
            unfolding r before_def using st by (simp_all add: spawned_tickets_append)
          with nd show ?thesis by blast
        next
          case False
          with Settled Resolved show ?thesis using w bp ra sp
            by (simp add: r_def Let_def before_def finish_def spawned_tickets_append)
        qed
      qed
    qed
  qed
qed


declare process_tickets.simps(2) [simp del]

lemma process_tickets_prefix:
  "\<exists>k \<le> length ts. map fst (runs (process_tickets P env agentName logsDir n i ts fs)) = take k ts"
proof (induction ts arbitrary: i fs)
  case Nil
  then show ?case by (simp add: finish_def)
next
  case (Cons t rest)
  from process_tickets_turn [of P env agentName logsDir n i t rest fs]
  consider (stop) "runs (process_tickets P env agentName logsDir n i (t # rest) fs) = []"
    | (last) p where "runs (process_tickets P env agentName logsDir n i (t # rest) fs) = [(t, p)]"
    | (go) fs' where "runs (process_tickets P env agentName logsDir n i (t # rest) fs)
        = (t, Resolved 0) # runs (process_tickets P env agentName logsDir n (i + 1) rest fs')"
    by blast
  then show ?case
  proof cases
    case stop
    then show ?thesis by (intro exI [of _ 0]) simp
  next
    case last
    then show ?thesis by (intro exI [of _ 1]) simp
  next
    case go
    from Cons.IH [of "i + 1" fs'] obtain k where
      "k \<le> length rest"
      "map fst (runs (process_tickets P env agentName logsDir n (i + 1) rest fs')) = take k rest"
      by blast
    with go show ?thesis by (intro exI [of _ "Suc k"]) simp
  qed
qed

lemma process_tickets_spawned:
  "spawned_tickets (trace (process_tickets P env agentName logsDir n i ts fs))
     = map fst (runs (process_tickets P env agentName logsDir n i ts fs))"
proof (induction ts arbitrary: i fs)
  case Nil
  then show ?case by (simp add: finish_def)
next
  case (Cons t rest)
  from process_tickets_turn [of P env agentName logsDir n i t rest fs] Cons.IH
  show ?case by (elim disjE exE conjE) simp_all
qed

lemma process_tickets_no_discover:
  "\<forall>e \<in> set (trace (process_tickets P env agentName logsDir n i ts fs)). \<not> is_discover e"
proof (induction ts arbitrary: i fs)
  case Nil
  then show ?case by (simp add: finish_def)
next
  case (Cons t rest)
  from process_tickets_turn [of P env agentName logsDir n i t rest fs] Cons.IH
  show ?case by (elim disjE exE conjE) auto
qed

lemma process_tickets_earlier_ok:
  "\<forall>x \<in> set (butlast (runs (process_tickets P env agentName logsDir n i ts fs))). snd x = Resolved 0"
proof (induction ts arbitrary: i fs)
  case Nil
  then show ?case by (simp add: finish_def)
next
  case (Cons t rest)
  from process_tickets_turn [of P env agentName logsDir n i t rest fs] Cons.IH
  show ?case by (elim disjE exE conjE) (auto split: if_splits)
qed

lemma process_tickets_failure_code:
  "runs (process_tickets P env agentName logsDir n i ts fs) \<noteq> []
     \<Longrightarrow> last (runs (process_tickets P env agentName logsDir n i ts fs)) = (t, Resolved c)
     \<Longrightarrow> c \<noteq> 0
     \<Longrightarrow> exit_code (process_tickets P env agentName logsDir n i ts fs) = Some c"
proof (induction ts arbitrary: i fs)
  case Nil
  then show ?case by (simp add: finish_def)
next
  case (Cons u rest)
  from process_tickets_turn [of P env agentName logsDir n i u rest fs]
  consider (stop) "runs (process_tickets P env agentName logsDir n i (u # rest) fs) = []"
    | (last) p where "runs (process_tickets P env agentName logsDir n i (u # rest) fs) = [(u, p)]"
        "exit_code (process_tickets P env agentName logsDir n i (u # rest) fs)
           = (case p of Pending \<Rightarrow> None | Rejected \<Rightarrow> Some 1 | Resolved c \<Rightarrow> Some c)"
    | (go) fs' where "runs (process_tickets P env agentName logsDir n i (u # rest) fs)
        = (u, Resolved 0) # runs (process_tickets P env agentName logsDir n (i + 1) rest fs')"
       "exit_code (process_tickets P env agentName logsDir n i (u # rest) fs)
          = exit_code (process_tickets P env agentName logsDir n (i + 1) rest fs')"
    by blast
  then show ?case
  proof cases
    case stop
    with Cons.prems show ?thesis by simp
  next
    case last
    with Cons.prems show ?thesis by simp
  next
    case go
    let ?r' = "process_tickets P env agentName logsDir n (i + 1) rest fs'"
    from Cons.prems go have ne: "runs ?r' \<noteq> []" by (auto split: if_splits)
    with Cons.prems go have "last (runs ?r') = (t, Resolved c)" by simp
    from Cons.IH [OF ne this Cons.prems(3)] go show ?thesis by simp
  qed
qed

lemma process_tickets_clean:
  "\<forall>x \<in> set (runs (process_tickets P env agentName logsDir n i ts fs)). snd x = Resolved 0
     \<Longrightarrow> length (runs (process_tickets P env agentName logsDir n i ts fs)) = length ts
     \<Longrightarrow> exit_code (process_tickets P env agentName logsDir n i ts fs) = Some 0"
proof (induction ts arbitrary: i fs)
  case Nil
  then show ?case by (simp add: finish_def)
next
  case (Cons u rest)
  from process_tickets_turn [of P env agentName logsDir n i u rest fs]
  consider (stop) "runs (process_tickets P env agentName logsDir n i (u # rest) fs) = []"
    | (last) p where "runs (process_tickets P env agentName logsDir n i (u # rest) fs) = [(u, p)]"
        "p \<noteq> Resolved 0"
    | (go) fs' where "runs (process_tickets P env agentName logsDir n i (u # rest) fs)
        = (u, Resolved 0) # runs (process_tickets P env agentName logsDir n (i + 1) rest fs')"
       "exit_code (process_tickets P env agentName logsDir n i (u # rest) fs)
          = exit_code (process_tickets P env agentName logsDir n (i + 1) rest fs')"
    by blast
  then show ?case
  proof cases
    case stop
    with Cons.prems show ?thesis by simp
  next
    case last
    with Cons.prems show ?thesis by simp
  next
    case go
    with Cons.prems Cons.IH [of "i + 1" fs'] show ?thesis by simp
  qed
qed


section \<open>The whole program\<close>

lemma discoverAll_effects: "\<forall>e \<in> set (fst (discoverAll fs d sts)). is_discover e"
  by (induction sts) (auto split: option.splits prod.splits)


lemma spawned_tickets_discover: "\<forall>e \<in> set es. is_discover e \<Longrightarrow> spawned_tickets es = []"
  by (induction es rule: spawned_tickets.induct) simp_all

lemma length_run_order: "length (run_order sts xs) = length xs"
  by (simp add: run_order_sort)


lemma main_shape:
  assumes "parseArgs argv = Inr cfg"
  shows "\<exists>rest. trace (main P env argv fs)
                  = fst (discoverAll fs (join (cwd env) ''tickets'') (stages cfg)) @ rest
           \<and> (\<forall>e \<in> set rest. \<not> is_discover e)
           \<and> ((runs (main P env argv fs) = [] \<and> spawned_tickets rest = []
                \<and> (exit_code (main P env argv fs) = Some 0
                    \<or> exit_code (main P env argv fs) = Some 1
                       \<and> snd (discoverAll fs (join (cwd env) ''tickets'') (stages cfg)) \<noteq> Some []))
              \<or> (\<exists>allTickets pt.
                    snd (discoverAll fs (join (cwd env) ''tickets'') (stages cfg)) = Some allTickets
                    \<and> pt = process_tickets P env (agent cfg)
                             (join (join (cwd env) ''tickets'') ''.logs'')
                             (length (run_order (stages cfg) allTickets)) 0
                             (run_order (stages cfg) allTickets) fs
                    \<and> runs (main P env argv fs) = runs pt
                    \<and> exit_code (main P env argv fs) = exit_code pt
                    \<and> spawned_tickets rest = spawned_tickets (trace pt)))"
proof -
  let ?tdir = "join (cwd env) ''tickets''"
  obtain es found where d: "discoverAll fs ?tdir (stages cfg) = (es, found)"
    by (cases "discoverAll fs ?tdir (stages cfg)") auto
  show ?thesis
  proof (cases found)
    case None
    then have "main P env argv fs = failed es"
      using assms d by (simp add: main_def)
    then show ?thesis using d None
      by (intro exI [of _ "[ConsoleError RunnerFailed]"]) (simp add: failed_def finish_def)
  next
    case (Some allTickets)
    let ?snap = "run_order (stages cfg) allTickets"
    let ?logs = "join ?tdir ''.logs''"
    let ?pt = "process_tickets P env (agent cfg) ?logs (length ?snap) 0 ?snap fs"
    consider (none) "allTickets = []"
      | (dry) "allTickets \<noteq> []" "dryRun cfg"
      | (nolog) "allTickets \<noteq> []" "\<not> dryRun cfg" "\<not> writable fs ?logs"
      | (go) "allTickets \<noteq> []" "\<not> dryRun cfg" "writable fs ?logs"
      by blast
    then show ?thesis
    proof cases
      case none
      then have "main P env argv fs = finish (Some 0) (es @ [ConsoleLog NoTicketsFound])"
        using assms d Some by (simp add: main_def)
      then show ?thesis using d
        by (intro exI [of _ "[ConsoleLog NoTicketsFound]"]) (simp add: finish_def)
    next
      case dry
      then have "main P env argv fs = finish (Some 0) (es @ [ConsoleLog (DryRunListing ?snap)])"
        using assms d Some by (simp add: main_def Let_def)
      then show ?thesis using d
        by (intro exI [of _ "[ConsoleLog (DryRunListing ?snap)]"]) (simp add: finish_def)
    next
      case nolog
      then have "main P env argv fs = failed (es @ [ConsoleLog (Snapshotted (length ?snap))])"
        using assms d Some by (simp add: main_def Let_def)
      then show ?thesis using d Some nolog(1)
        by (intro exI [of _ "[ConsoleLog (Snapshotted (length ?snap)), ConsoleError RunnerFailed]"])
           (simp add: failed_def finish_def)
    next
      case go
      then have m: "main P env argv fs
                   = before (es @ [ConsoleLog (Snapshotted (length ?snap)), Mkdir ?logs]) [] ?pt"
        using assms d Some by (simp add: main_def Let_def)
      let ?rest = "[ConsoleLog (Snapshotted (length ?snap)), Mkdir ?logs] @ trace ?pt"
      have "trace (main P env argv fs) = fst (discoverAll fs ?tdir (stages cfg)) @ ?rest"
        unfolding m before_def using d by simp
      moreover have "\<forall>e \<in> set ?rest. \<not> is_discover e"
        using process_tickets_no_discover [of P env "agent cfg" ?logs "length ?snap" 0 ?snap fs]
        by auto
      moreover have "runs (main P env argv fs) = runs ?pt"
        "exit_code (main P env argv fs) = exit_code ?pt"
        unfolding m before_def by simp_all
      moreover have "spawned_tickets ?rest = spawned_tickets (trace ?pt)" by simp
      moreover have "snd (discoverAll fs ?tdir (stages cfg)) = Some allTickets"
        using d Some by simp
      ultimately show ?thesis by blast
    qed
  qed
qed

section \<open>The supervisor\<close>

lemma split_on_sep: "c \<notin> set s \<Longrightarrow> split_on c (s @ c # r) = s # split_on c r"
  by (induction s) auto

lemma stdout_whole_line:
  assumes "CHR 0x0A \<notin> set line" and "buf s = []"
  shows "handle fmt s (StdoutData now (line @ [CHR 0x0A]))
           = processLine fmt now line
               ((if resultExitCode s = None then resetIdleTimer now s else s)\<lparr>buf := []\<rparr>)"
  using assms by (simp add: split_on_sep resetIdleTimer_def)

lemma processLine_done:
  assumes "is_done (f line)"
  shows "resultExitCode (processLine (Some f) now line s)
           = Some (case exitCode (f line) of Some e \<Rightarrow> e | None \<Rightarrow> 0)"
    and "idleTimer (processLine (Some f) now line s) = Some (StaleKill, now + GRACE_MS)"
    and "settled (processLine (Some f) now line s) = settled s"
    and "outcome (processLine (Some f) now line s) = outcome s"
    and "buf (processLine (Some f) now line s) = buf s"
  using assms by (simp_all add: processLine_def Let_def emit_def)

lemma processLine_not_done:
  assumes "case fmt of None \<Rightarrow> True | Some f \<Rightarrow> \<not> is_done (f line)"
  shows "resultExitCode (processLine fmt now line s) = resultExitCode s"
    and "idleTimer (processLine fmt now line s) = idleTimer s"
    and "settled (processLine fmt now line s) = settled s"
    and "outcome (processLine fmt now line s) = outcome s"
    and "buf (processLine fmt now line s) = buf s"
  using assms by (auto simp: processLine_def Let_def emit_def split: option.splits)





lemma close_resolves:
  assumes "\<not> settled s" and "outcome s = Pending"
    and "buf s = [] \<or> (case fmt of None \<Rightarrow> True | Some f \<Rightarrow> \<not> is_done (f (trimEnd (buf s))))"
  shows "outcome (handle fmt s (CloseEv now code))
           = Resolved (case resultExitCode s of
                         Some r \<Rightarrow> r
                       | None \<Rightarrow> (case code of Some c \<Rightarrow> c | None \<Rightarrow> 1))"
proof (cases "buf s = []")
  case True
  with assms(1,2) show ?thesis by (simp add: settle_def emit_def)
next
  case False
  with assms(3) have nd: "case fmt of None \<Rightarrow> True | Some f \<Rightarrow> \<not> is_done (f (trimEnd (buf s)))"
    by simp
  note pl = processLine_not_done [OF nd, of now s]
  from False assms(1,2) show ?thesis
    by (simp add: settle_def emit_def pl Let_def)
qed

lemma timer_fires:
  assumes "idleTimer s = Some (k, due)" and "due \<le> now"
  shows "handle fmt s (TimerDue now) = (emit (Kill k) s)\<lparr>idleTimer := None\<rparr>"
  using assms by simp


lemma lines_differ: "error_line \<noteq> ok_line"
  by (simp add: error_line_def ok_line_def)

lemma no_newline: "CHR 0x0A \<notin> set ok_line" "CHR 0x0A \<notin> set error_line"
  by (simp_all add: error_line_def ok_line_def)

lemma format_ok_line:
  "formatClaudeJsonLine sample_platform ok_line
     = \<lparr>text_of = ''[RESULT]'', is_done = True, exitCode = Some 0\<rparr>"
  by (simp add: formatClaudeJsonLine_def sample_platform_def result_throws_def)

lemma format_error_line:
  "formatClaudeJsonLine sample_platform error_line
     = \<lparr>text_of = ''[RESULT]'', is_done = True, exitCode = Some 1\<rparr>"
  by (simp add: formatClaudeJsonLine_def sample_platform_def result_throws_def lines_differ)

lemma spawned_fields:
  "buf spawned = []" "\<not> settled spawned" "outcome spawned = Pending"
  "resultExitCode spawned = None" "idleTimer spawned = Some (IdleKill, 600000)"
  "effects spawned = []"
  by (simp_all add: spawned_def IDLE_TIMEOUT_MS_def)

lemma trimEnd_ok_line: "trimEnd ok_line = ok_line"
  by (simp add: trimEnd_def ok_line_def is_space_def)

lemma ok_line_nonempty: "ok_line \<noteq> []"
  by (simp add: ok_line_def)




section \<open>From a result line to the batch\<close>

lemma supervise_result_line:
  assumes "is_done (f line)" and "CHR 0x0A \<notin> set line"
    and "buf s = []" and "\<not> settled s" and "outcome s = Pending"
  shows "outcome (handle (Some f) (handle (Some f) s (StdoutData now (line @ [CHR 0x0A])))
                    (CloseEv later code))
           = Resolved (case exitCode (f line) of Some e \<Rightarrow> e | None \<Rightarrow> 0)"
proof -
  let ?s0 = "(if resultExitCode s = None then resetIdleTimer now s else s)\<lparr>buf := []\<rparr>"
  let ?s1 = "processLine (Some f) now line ?s0"
  have s1: "handle (Some f) s (StdoutData now (line @ [CHR 0x0A])) = ?s1"
    by (rule stdout_whole_line [OF assms(2,3)])
  have s0: "\<not> settled ?s0" "outcome ?s0 = Pending" "buf ?s0 = []"
    using assms(4,5) by (simp_all add: resetIdleTimer_def)
  note pl = processLine_done [where f = f and line = line and now = now and s = ?s0, OF assms(1)]
  have "outcome (handle (Some f) ?s1 (CloseEv later code))
          = Resolved (case resultExitCode ?s1 of
                         Some r \<Rightarrow> r
                       | None \<Rightarrow> (case code of Some c \<Rightarrow> c | None \<Rightarrow> 1))"
    by (rule close_resolves) (simp_all add: pl s0)
  then show ?thesis unfolding s1 by (simp add: pl(1))
qed

lemma runAgent_claude:
  assumes "writable fs (instructionFile_of logFile)"
    and "child env (invoke (claude_adapter P (instructionFile_of logFile) (stage t))) t fs = (evs, fs')"
  shows "\<exists>es. runAgent P env (Some ''claude'') logFile t fs
           = (Settled (outcome (supervise (Some (formatClaudeJsonLine P)) evs)), es, fs')"
  using assms by (simp add: runAgent_def agents_def Let_def claude_adapter_def)

lemma process_tickets_stop:
  assumes "writable fs (logPath logsDir t (timestamp env i))"
    and "buildPrompt env fs t \<noteq> None"
    and "runAgent P env agentName (logPath logsDir t (timestamp env i)) t fs
           = (Settled (Resolved c), es, fs')"
    and "c \<noteq> 0"
  shows "runs (process_tickets P env agentName logsDir n i (t # rest) fs) = [(t, Resolved c)]"
    and "exit_code (process_tickets P env agentName logsDir n i (t # rest) fs) = Some c"
  using assms by (auto simp: process_tickets.simps(2) Let_def before_def finish_def)

lemma process_tickets_go:
  assumes "writable fs (logPath logsDir t (timestamp env i))"
    and "buildPrompt env fs t \<noteq> None"
    and "runAgent P env agentName (logPath logsDir t (timestamp env i)) t fs
           = (Settled (Resolved 0), es, fs')"
  shows "runs (process_tickets P env agentName logsDir n i (t # rest) fs)
           = (t, Resolved 0) # runs (process_tickets P env agentName logsDir n (i + 1) rest fs')"
    and "exit_code (process_tickets P env agentName logsDir n i (t # rest) fs)
           = exit_code (process_tickets P env agentName logsDir n (i + 1) rest fs')"
  using assms by (auto simp: process_tickets.simps(2) Let_def before_def finish_def)

lemma result_event:
  assumes "JSON_parse P line = Some obj" and "get_prop obj ''type'' = Some (JStr ''result'')"
    and "\<not> result_throws obj"
  shows "formatClaudeJsonLine P line
           = \<lparr>text_of = result_text P obj, is_done = True,
              exitCode = Some (if truthy (get_prop obj ''is_error'') then 1 else 0)\<rparr>"
proof -
  from assms(2) have "obj \<noteq> JNull" by auto
  with assms show ?thesis by (simp add: formatClaudeJsonLine_def)
qed

section \<open>Sample runs\<close>

lemma parse_sample: "parseArgs [''--stages'', ''fix,implement''] = Inr fix_implement"
  by (simp add: parse_fix_implement fix_implement_def)

lemma sample_dirs:
  "join (cwd failing_env) ''tickets'' = ''/repo/tickets''"
  "join (cwd sample_env) ''tickets'' = ''/repo/tickets''"
  "stages fix_implement = [(''fix'', Num 3), (''implement'', Num 3)]"
  "agent fix_implement = Some ''claude''" "\<not> dryRun fix_implement"
  by (simp_all add: failing_env_def sample_env_def join_def fix_implement_def)

lemma discover_sample:
  "discoverAll three_fs ''/repo/tickets'' [(''fix'', Num 3), (''implement'', Num 3)]
     = ([Discover ''fix'', Discover ''implement''], Some [ticket_5a, ticket_3c, ticket_5b])"
  by (simp add: discoverTickets_def three_fs_def join_def js_sort_def name_eval
        ticket_5a_def ticket_3c_def ticket_5b_def)

lemma order_sample:
  "run_order [(''fix'', Num 3), (''implement'', Num 3)] [ticket_5a, ticket_3c, ticket_5b]
     = [ticket_5a, ticket_3c, ticket_5b]"
  by (simp add: run_order_def js_sort_def stage_cmp_def stage_index_def stageOrder_def
        upt_rec [of 0] upt_rec [of 1] upt_rec [of 2] ticket_5a_def ticket_3c_def ticket_5b_def)

lemma main_batch:
  assumes "parseArgs argv = Inr cfg"
    and "discoverAll fs (join (cwd env) ''tickets'') (stages cfg) = (es, Some allTickets)"
    and "allTickets \<noteq> []" and "\<not> dryRun cfg"
    and "writable fs (join (join (cwd env) ''tickets'') ''.logs'')"
  shows "main P env argv fs
           = before (es @ [ConsoleLog (Snapshotted (length (run_order (stages cfg) allTickets))),
                           Mkdir (join (join (cwd env) ''tickets'') ''.logs'')])
               []
               (process_tickets P env (agent cfg) (join (join (cwd env) ''tickets'') ''.logs'')
                  (length (run_order (stages cfg) allTickets)) 0
                  (run_order (stages cfg) allTickets) fs)"
  using assms by (simp add: main_def Let_def)

lemma failing_run:
  "runs (main sample_platform failing_env [''--stages'', ''fix,implement''] three_fs)
     = [(ticket_5a, Resolved 1)]"
  "exit_code (main sample_platform failing_env [''--stages'', ''fix,implement''] three_fs) = Some 1"
proof -
  let ?logs = "join ''/repo/tickets'' ''.logs''"
  let ?f = "formatClaudeJsonLine sample_platform"
  have m: "main sample_platform failing_env [''--stages'', ''fix,implement''] three_fs
             = before ([Discover ''fix'', Discover ''implement'']
                        @ [ConsoleLog (Snapshotted 3), Mkdir ?logs]) []
                 (process_tickets sample_platform failing_env (Some ''claude'') ?logs 3 0
                    [ticket_5a, ticket_3c, ticket_5b] three_fs)"
  proof -
    have h2: "discoverAll three_fs (join (cwd failing_env) ''tickets'') (stages fix_implement)
                = ([Discover ''fix'', Discover ''implement''],
                   Some [ticket_5a, ticket_3c, ticket_5b])"
      by (simp only: sample_dirs discover_sample)
    have h5: "writable three_fs (join (join (cwd failing_env) ''tickets'') ''.logs'')"
      by (simp add: three_fs_def)
    have ne: "[ticket_5a, ticket_3c, ticket_5b] \<noteq> []" by simp
    from main_batch [OF parse_sample h2 ne sample_dirs(5) h5, of sample_platform]
    show ?thesis by (simp add: sample_dirs order_sample numeral_3_eq_3)
  qed
  have w: "writable three_fs p" for p by (simp add: three_fs_def)
  have bp: "buildPrompt failing_env three_fs ticket_5a \<noteq> None"
    by (simp add: buildPrompt_def three_fs_def)
  have "outcome (supervise (Some ?f) [StdoutData 5 (error_line @ [CHR 0x0A]), CloseEv 9 (Some 0)])
          = Resolved 1"
    unfolding supervise_def foldl.simps
    using supervise_result_line [where f = ?f and line = error_line and s = spawned and now = 5
            and later = 9 and code = "Some 0"]
    by (simp add: format_error_line no_newline spawned_fields)
  moreover have "child failing_env c ticket_5a three_fs
           = ([StdoutData 5 (error_line @ [CHR 0x0A]), CloseEv 9 (Some 0)], three_fs)" for c
    by (simp add: failing_env_def)
  ultimately obtain es where
    ra: "runAgent sample_platform failing_env (Some ''claude'')
           (logPath ?logs ticket_5a (timestamp failing_env 0)) ticket_5a three_fs
           = (Settled (Resolved 1), es, three_fs)"
    using runAgent_claude [OF w, of failing_env sample_platform
            "logPath ?logs ticket_5a (timestamp failing_env 0)" ticket_5a
            "[StdoutData 5 (error_line @ [CHR 0x0A]), CloseEv 9 (Some 0)]" three_fs]
    by auto
  from process_tickets_stop [OF w bp ra, of 3 "[ticket_3c, ticket_5b]"]
  show "runs (main sample_platform failing_env [''--stages'', ''fix,implement''] three_fs)
     = [(ticket_5a, Resolved 1)]"
  "exit_code (main sample_platform failing_env [''--stages'', ''fix,implement''] three_fs) = Some 1"
    unfolding m before_def by simp_all
qed

section \<open>The snapshot\<close>





section \<open>Configuration errors\<close>

lemma check_stages_unknown:
  "\<exists>sel \<in> set sts. fst sel \<notin> set PENDING_STAGES
     \<Longrightarrow> \<exists>bad. check_stages sts = Some bad \<and> bad \<notin> set PENDING_STAGES"
  by (induction sts rule: check_stages.induct) auto

lemma agents_missing:
  "agentName = None \<or> (\<exists>n. agentName = Some n \<and> n \<notin> set resolvable_agents)
     \<Longrightarrow> agents P f c st agentName = Missing"
  by (auto simp: agents_def resolvable_agents_def)

lemma runAgent_unknown:
  assumes "agentName = None \<or> (\<exists>n. agentName = Some n \<and> n \<notin> set resolvable_agents)"
  shows "runAgent P env agentName logFile t fs
           = (ProcessExit 1, [ConsoleError (UnknownAgent agentName)], fs)"
  by (simp add: runAgent_def Let_def agents_missing [OF assms])

lemma unknown_agent_first_ticket:
  assumes "agentName = None \<or> (\<exists>n. agentName = Some n \<and> n \<notin> set resolvable_agents)"
    and "writable fs (logPath logsDir t (timestamp env i))"
    and "buildPrompt env fs t \<noteq> None"
  shows "process_tickets P env agentName logsDir n i (t # rest) fs
           = \<lparr>exit_code = Some 1,
              trace = [ConsoleLog (TicketBanner (i + 1) n t (logPath logsDir t (timestamp env i))),
                       WriteFile (logPath logsDir t (timestamp env i)),
                       ConsoleError (UnknownAgent agentName)],
              runs = []\<rparr>"
  using assms(2,3)
  by (auto simp: process_tickets.simps(2) Let_def runAgent_unknown [OF assms(1)] finish_def)

lemma unknown_agent_never_spawns:
  assumes "agentName = None \<or> (\<exists>n. agentName = Some n \<and> n \<notin> set resolvable_agents)"
  shows "runs (process_tickets P env agentName logsDir n i ts fs) = []
       \<and> spawned_tickets (trace (process_tickets P env agentName logsDir n i ts fs)) = []"
proof (cases ts)
  case Nil
  then show ?thesis by (simp add: finish_def)
next
  case (Cons t rest)
  show ?thesis
  proof (cases "writable fs (logPath logsDir t (timestamp env i))")
    case False
    then show ?thesis unfolding Cons
      by (simp add: process_tickets.simps(2) Let_def failed_def finish_def)
  next
    case w: True
    show ?thesis
    proof (cases "buildPrompt env fs t")
      case None
      with w show ?thesis unfolding Cons
        by (simp add: process_tickets.simps(2) Let_def failed_def finish_def)
    next
      case (Some prompt)
      then have "buildPrompt env fs t \<noteq> None" by simp
      from unknown_agent_first_ticket [OF assms w this] show ?thesis unfolding Cons by simp
    qed
  qed
qed

lemma main_unknown_stage:
  assumes "parse_loop \<lparr>minPriority = Num 3, agent = Some ''claude'', dryRun = False,
                        stagesRaw = None\<rparr> argv = Inr opts"
    and "check_stages (parseStages (case stagesRaw opts of Some r \<Rightarrow> r
                                    | None \<Rightarrow> join_with '','' PENDING_STAGES)
                         (minPriority opts)) = Some bad"
  shows "main P env argv fs
           = \<lparr>exit_code = Some 1, trace = [ConsoleError (UnknownStage bad)], runs = []\<rparr>"
  using assms by (simp add: main_def parseArgs_def Let_def finish_def)

lemma main_nothing_to_run:
  assumes "parseArgs argv = Inr cfg"
    and "discoverAll fs (join (cwd env) ''tickets'') (stages cfg) = (es, Some allTickets)"
  shows "allTickets = []
           \<Longrightarrow> main P env argv fs
                = \<lparr>exit_code = Some 0, trace = es @ [ConsoleLog NoTicketsFound], runs = []\<rparr>"
    and "allTickets \<noteq> [] \<Longrightarrow> dryRun cfg
           \<Longrightarrow> main P env argv fs
                = \<lparr>exit_code = Some 0,
                   trace = es @ [ConsoleLog (DryRunListing (run_order (stages cfg) allTickets))],
                   runs = []\<rparr>"
  using assms by (simp_all add: main_def Let_def finish_def)


lemma main_unknown_agent:
  assumes "parseArgs argv = Inr cfg"
    and "agent cfg = None \<or> (\<exists>n. agent cfg = Some n \<and> n \<notin> set resolvable_agents)"
    and "discoverAll fs (join (cwd env) ''tickets'') (stages cfg) = (es, Some allTickets)"
    and "\<not> dryRun cfg"
    and "run_order (stages cfg) allTickets = t # rest"
    and "writable fs (join (join (cwd env) ''tickets'') ''.logs'')"
    and "writable fs (logPath (join (join (cwd env) ''tickets'') ''.logs'') t (timestamp env 0))"
    and "buildPrompt env fs t \<noteq> None"
  shows "main P env argv fs
           = \<lparr>exit_code = Some 1,
              trace = es @ [ConsoleLog (Snapshotted (length allTickets)),
                            Mkdir (join (join (cwd env) ''tickets'') ''.logs''),
                            ConsoleLog (TicketBanner 1 (length allTickets) t
                              (logPath (join (join (cwd env) ''tickets'') ''.logs'') t
                                 (timestamp env 0))),
                            WriteFile (logPath (join (join (cwd env) ''tickets'') ''.logs'') t
                                         (timestamp env 0)),
                            ConsoleError (UnknownAgent (agent cfg))],
              runs = []\<rparr>"
proof -
  have len: "length (run_order (stages cfg) allTickets) = length allTickets"
    by (rule length_run_order)
  with assms(5) have ne: "allTickets \<noteq> []" by auto
  let ?logs = "join (join (cwd env) ''tickets'') ''.logs''"
  from unknown_agent_first_ticket [OF assms(2,7,8), of P "length allTickets" rest]
  have pt: "process_tickets P env (agent cfg) ?logs (length allTickets) 0
              (run_order (stages cfg) allTickets) fs
              = \<lparr>exit_code = Some 1,
                 trace = [ConsoleLog (TicketBanner 1 (length allTickets) t
                            (logPath ?logs t (timestamp env 0))),
                          WriteFile (logPath ?logs t (timestamp env 0)),
                          ConsoleError (UnknownAgent (agent cfg))],
                 runs = []\<rparr>"
    unfolding assms(5) by simp
  have "main P env argv fs
          = before (es @ [ConsoleLog (Snapshotted (length allTickets)), Mkdir ?logs]) []
              (process_tickets P env (agent cfg) ?logs (length allTickets) 0
                 (run_order (stages cfg) allTickets) fs)"
    using main_batch [OF assms(1,3) ne assms(4,6), of P] unfolding len .
  then show ?thesis unfolding pt by (simp add: before_def)
qed

lemma parse_bogus_agent:
  "parseArgs [''--agent'', ''bogus'']
     = Inr \<lparr>minPriority = Num 3, agent = Some ''bogus'', dryRun = False, stagesRaw = None,
            stages = [(''fix'', Num 3), (''review'', Num 3), (''implement'', Num 3),
                      (''plan'', Num 3)]\<rparr>"
  "parseArgs [''--agent'', ''bogus'', ''--dry-run'']
     = Inr \<lparr>minPriority = Num 3, agent = Some ''bogus'', dryRun = True, stagesRaw = None,
            stages = [(''fix'', Num 3), (''review'', Num 3), (''implement'', Num 3),
                      (''plan'', Num 3)]\<rparr>"
  using default_stages [of "Num 3"] check_default [of "Num 3"]
  by (simp_all add: parseArgs_def opts.extend_def config.fields_def PENDING_STAGES_def)

lemma discover_default:
  "discoverAll three_fs ''/repo/tickets''
     [(''fix'', Num 3), (''review'', Num 3), (''implement'', Num 3), (''plan'', Num 3)]
     = ([Discover ''fix'', Discover ''review'', Discover ''implement'', Discover ''plan''],
        Some [ticket_5a, ticket_3c, ticket_5b])"
  by (simp add: discoverTickets_def three_fs_def join_def js_sort_def name_eval
        ticket_5a_def ticket_3c_def ticket_5b_def)

lemma order_default:
  "run_order [(''fix'', Num 3), (''review'', Num 3), (''implement'', Num 3), (''plan'', Num 3)]
     [ticket_5a, ticket_3c, ticket_5b]
     = [ticket_5a, ticket_3c, ticket_5b]"
  by (simp add: run_order_def js_sort_def stage_cmp_def stage_index_def stageOrder_def
        upt_rec [of 0] upt_rec [of 1] upt_rec [of 2] upt_rec [of 3]
        ticket_5a_def ticket_3c_def ticket_5b_def)

lemma first_log:
  "logPath (join ''/repo/tickets'' ''.logs'') ticket_5a ''T'' = ''/repo/tickets/.logs/5-a.fix.T.log''"
  by (simp add: logPath_def join_def strip_suffix_def endsWith_def ticket_5a_def)

lemma bogus_unknown: "\<exists>n. Some ''bogus'' = Some n \<and> n \<notin> set resolvable_agents"
  by (simp add: resolvable_agents_def)

text \<open>
  Claim C8 does not hold as stated for an unknown agent. With tickets to run, the program
  exits with code 1 only after the first ticket's log file has been written; in a dry run
  the unknown agent is not noticed and the program exits with code 0.
\<close>

theorem unknown_agent_counterexample:
  "exit_code (main sample_platform sample_env [''--agent'', ''bogus''] three_fs) = Some 1
   \<and> WriteFile ''/repo/tickets/.logs/5-a.fix.T.log''
       \<in> set (trace (main sample_platform sample_env [''--agent'', ''bogus''] three_fs))
   \<and> exit_code (main sample_platform sample_env [''--agent'', ''bogus'', ''--dry-run''] three_fs)
       = Some 0"
proof -
  let ?cfg = "\<lparr>minPriority = Num 3, agent = Some ''bogus'', dryRun = False, stagesRaw = None,
            stages = [(''fix'', Num 3), (''review'', Num 3), (''implement'', Num 3),
                      (''plan'', Num 3)]\<rparr>"
  let ?dry = "\<lparr>minPriority = Num 3, agent = Some ''bogus'', dryRun = True, stagesRaw = None,
            stages = [(''fix'', Num 3), (''review'', Num 3), (''implement'', Num 3),
                      (''plan'', Num 3)]\<rparr>"
  have u: "agent ?cfg = None \<or> (\<exists>n. agent ?cfg = Some n \<and> n \<notin> set resolvable_agents)"
    using bogus_unknown by simp
  have d: "discoverAll three_fs (join (cwd sample_env) ''tickets'') (stages ?cfg)
             = ([Discover ''fix'', Discover ''review'', Discover ''implement'', Discover ''plan''],
                Some [ticket_5a, ticket_3c, ticket_5b])"
    using discover_default by (simp add: sample_dirs)
  have d': "discoverAll three_fs (join (cwd sample_env) ''tickets'') (stages ?dry)
             = ([Discover ''fix'', Discover ''review'', Discover ''implement'', Discover ''plan''],
                Some [ticket_5a, ticket_3c, ticket_5b])"
    using discover_default by (simp add: sample_dirs)
  have nd: "\<not> dryRun ?cfg" by simp
  have o: "run_order (stages ?cfg) [ticket_5a, ticket_3c, ticket_5b]
             = ticket_5a # [ticket_3c, ticket_5b]"
    using order_default by simp
  have w: "writable three_fs p" for p by (simp add: three_fs_def)
  have bp: "buildPrompt sample_env three_fs ticket_5a \<noteq> None"
    by (simp add: buildPrompt_def three_fs_def)
  have ts: "timestamp sample_env 0 = ''T''" by (simp add: sample_env_def)
  from main_unknown_agent [OF parse_bogus_agent(1) u d nd o w w bp, of sample_platform]
  have run: "exit_code (main sample_platform sample_env [''--agent'', ''bogus''] three_fs) = Some 1"
    "WriteFile ''/repo/tickets/.logs/5-a.fix.T.log''
       \<in> set (trace (main sample_platform sample_env [''--agent'', ''bogus''] three_fs))"
    by (simp_all add: sample_dirs ts first_log)
  from main_nothing_to_run(2) [OF parse_bogus_agent(2) d', of sample_platform]
  have "exit_code (main sample_platform sample_env [''--agent'', ''bogus'', ''--dry-run''] three_fs)
          = Some 0"
    by simp
  with run show ?thesis by blast
qed


lemma main_unknown_agent_no_spawn:
  assumes "parseArgs argv = Inr cfg"
    and "agent cfg = None \<or> (\<exists>n. agent cfg = Some n \<and> n \<notin> set resolvable_agents)"
  shows "spawned_tickets (trace (main P env argv fs)) = []"
proof -
  let ?tdir = "join (cwd env) ''tickets''"
  let ?d = "discoverAll fs ?tdir (stages cfg)"
  from main_shape [OF assms(1), of P env fs] obtain rest where
    tr: "trace (main P env argv fs) = fst ?d @ rest"
    and alt: "spawned_tickets rest = []
            \<or> (\<exists>allTickets pt.
                  pt = process_tickets P env (agent cfg) (join ?tdir ''.logs'')
                         (length (run_order (stages cfg) allTickets)) 0
                         (run_order (stages cfg) allTickets) fs
                  \<and> spawned_tickets rest = spawned_tickets (trace pt))"
    by blast
  from alt unknown_agent_never_spawns [OF assms(2)] have "spawned_tickets rest = []" by auto
  then show ?thesis
    unfolding tr by (simp add: spawned_tickets_append spawned_tickets_discover discoverAll_effects)
qed

text \<open>
  Claim C8, amended. When no \<open>--help\<close> ends the program first, an unknown stage name makes
  it exit with code 1 after one message on standard error and nothing else: no discovery,
  no log file, no spawn. An unknown agent identifier (neither an adapter nor a member the
  adapter table inherits) never leads to a spawn; with an empty snapshot or in a dry run
  it goes unnoticed and the program exits with code 0; otherwise it is reported when the
  first ticket is about to be handed to the agent, after the logs directory and that
  ticket's log file have been written, and the program exits with code 1.
\<close>

theorem configuration_errors:
  assumes "parse_loop \<lparr>minPriority = Num 3, agent = Some ''claude'', dryRun = False,
                        stagesRaw = None\<rparr> argv = Inr opts"
  shows "((\<exists>sel \<in> set (parseStages (case stagesRaw opts of Some r \<Rightarrow> r
                                      | None \<Rightarrow> join_with '','' PENDING_STAGES)
                           (minPriority opts)). fst sel \<notin> set PENDING_STAGES)
          \<longrightarrow> (\<exists>bad. bad \<notin> set PENDING_STAGES
                 \<and> main P env argv fs
                     = \<lparr>exit_code = Some 1, trace = [ConsoleError (UnknownStage bad)],
                        runs = []\<rparr>))
       \<and> (\<forall>cfg es allTickets.
             parseArgs argv = Inr cfg
             \<and> (agent cfg = None \<or> (\<exists>n. agent cfg = Some n \<and> n \<notin> set resolvable_agents))
             \<and> discoverAll fs (join (cwd env) ''tickets'') (stages cfg) = (es, Some allTickets)
             \<longrightarrow> spawned_tickets (trace (main P env argv fs)) = []
                 \<and> (allTickets = []
                      \<longrightarrow> main P env argv fs
                           = \<lparr>exit_code = Some 0, trace = es @ [ConsoleLog NoTicketsFound],
                              runs = []\<rparr>)
                 \<and> (allTickets \<noteq> [] \<and> dryRun cfg
                      \<longrightarrow> main P env argv fs
                           = \<lparr>exit_code = Some 0,
                              trace = es @ [ConsoleLog (DryRunListing
                                                          (run_order (stages cfg) allTickets))],
                              runs = []\<rparr>)
                 \<and> (\<forall>t rest.
                       \<not> dryRun cfg \<and> run_order (stages cfg) allTickets = t # rest
                       \<and> writable fs (join (join (cwd env) ''tickets'') ''.logs'')
                       \<and> writable fs (logPath (join (join (cwd env) ''tickets'') ''.logs'') t
                                        (timestamp env 0))
                       \<and> buildPrompt env fs t \<noteq> None
                       \<longrightarrow> main P env argv fs
                           = \<lparr>exit_code = Some 1,
                              trace = es @ [ConsoleLog (Snapshotted (length allTickets)),
                                Mkdir (join (join (cwd env) ''tickets'') ''.logs''),
                                ConsoleLog (TicketBanner 1 (length allTickets) t
                                  (logPath (join (join (cwd env) ''tickets'') ''.logs'') t
                                     (timestamp env 0))),
                                WriteFile (logPath (join (join (cwd env) ''tickets'') ''.logs'') t
                                             (timestamp env 0)),
                                ConsoleError (UnknownAgent (agent cfg))],
                              runs = []\<rparr>))"
proof -
  have stage_part: "\<exists>bad. bad \<notin> set PENDING_STAGES
                 \<and> main P env argv fs
                     = \<lparr>exit_code = Some 1, trace = [ConsoleError (UnknownStage bad)],
                        runs = []\<rparr>"
    if "\<exists>sel \<in> set (parseStages (case stagesRaw opts of Some r \<Rightarrow> r
                                      | None \<Rightarrow> join_with '','' PENDING_STAGES)
                           (minPriority opts)). fst sel \<notin> set PENDING_STAGES"
  proof -
    from check_stages_unknown [OF that] obtain bad where
      bad: "check_stages (parseStages (case stagesRaw opts of Some r \<Rightarrow> r
                                      | None \<Rightarrow> join_with '','' PENDING_STAGES)
                           (minPriority opts)) = Some bad"
      and nb: "bad \<notin> set PENDING_STAGES" by blast
    from main_unknown_stage [OF assms bad, of P env fs] nb show ?thesis by blast
  qed
  have agent_part: "spawned_tickets (trace (main P env argv fs)) = []
                 \<and> (allTickets = []
                      \<longrightarrow> main P env argv fs
                           = \<lparr>exit_code = Some 0, trace = es @ [ConsoleLog NoTicketsFound],
                              runs = []\<rparr>)
                 \<and> (allTickets \<noteq> [] \<and> dryRun cfg
                      \<longrightarrow> main P env argv fs
                           = \<lparr>exit_code = Some 0,
                              trace = es @ [ConsoleLog (DryRunListing
                                                          (run_order (stages cfg) allTickets))],
                              runs = []\<rparr>)
                 \<and> (\<forall>t rest.
                       \<not> dryRun cfg \<and> run_order (stages cfg) allTickets = t # rest
                       \<and> writable fs (join (join (cwd env) ''tickets'') ''.logs'')
                       \<and> writable fs (logPath (join (join (cwd env) ''tickets'') ''.logs'') t
                                        (timestamp env 0))
                       \<and> buildPrompt env fs t \<noteq> None
                       \<longrightarrow> main P env argv fs
                           = \<lparr>exit_code = Some 1,
                              trace = es @ [ConsoleLog (Snapshotted (length allTickets)),
                                Mkdir (join (join (cwd env) ''tickets'') ''.logs''),
                                ConsoleLog (TicketBanner 1 (length allTickets) t
                                  (logPath (join (join (cwd env) ''tickets'') ''.logs'') t
                                     (timestamp env 0))),
                                WriteFile (logPath (join (join (cwd env) ''tickets'') ''.logs'') t
                                             (timestamp env 0)),
                                ConsoleError (UnknownAgent (agent cfg))],
                              runs = []\<rparr>)"
    if p: "parseArgs argv = Inr cfg"
      and u: "agent cfg = None \<or> (\<exists>n. agent cfg = Some n \<and> n \<notin> set resolvable_agents)"
      and d: "discoverAll fs (join (cwd env) ''tickets'') (stages cfg) = (es, Some allTickets)"
    for cfg es allTickets
    using main_unknown_agent_no_spawn [OF p u, of P env fs]
      main_nothing_to_run [OF p d, of P]
      main_unknown_agent [OF p u d, of _ _ P]
    by blast
  show ?thesis using stage_part agent_part by blast
qed

theorem configuration_errors_witness:
  "parse_loop \<lparr>minPriority = Num 3, agent = Some ''claude'', dryRun = False, stagesRaw = None\<rparr>
     [''--stages'', ''bogus'']
     = Inr \<lparr>minPriority = Num 3, agent = Some ''claude'', dryRun = False,
            stagesRaw = Some ''bogus''\<rparr>
   \<and> exit_code (main sample_platform sample_env [''--stages'', ''bogus''] three_fs) = Some 1
   \<and> runs (main sample_platform sample_env [''--stages'', ''bogus''] three_fs) = []
   \<and> length (trace (main sample_platform sample_env [''--stages'', ''bogus''] three_fs)) = 1"
proof -
  let ?opts = "\<lparr>minPriority = Num 3, agent = Some ''claude'', dryRun = False,
                 stagesRaw = Some ''bogus''\<rparr>"
  have a: "parse_loop \<lparr>minPriority = Num 3, agent = Some ''claude'', dryRun = False,
                        stagesRaw = None\<rparr> [''--stages'', ''bogus''] = Inr ?opts"
    by simp
  have b: "\<exists>sel \<in> set (parseStages (case stagesRaw ?opts of Some r \<Rightarrow> r
                                      | None \<Rightarrow> join_with '','' PENDING_STAGES)
                           (minPriority ?opts)). fst sel \<notin> set PENDING_STAGES"
    by (simp add: parseStages_def trim_def is_space_def PENDING_STAGES_def)
  from configuration_errors [OF a, of sample_platform sample_env three_fs] b
  obtain bad where
    "main sample_platform sample_env [''--stages'', ''bogus''] three_fs
       = \<lparr>exit_code = Some 1, trace = [ConsoleError (UnknownStage bad)], runs = []\<rparr>"
    by blast
  then show ?thesis using a by simp
qed

section \<open>What an invocation resolves with\<close>

declare handle.simps [simp del]

lemma split_on_append:
  "split_on c (a @ b) = butlast (split_on c a) @ split_on c (last (split_on c a) @ b)"
proof (induction a)
  case Nil
  then show ?case by simp
next
  case (Cons x xs)
  obtain p ps where ps: "split_on c xs = p # ps"
    using split_on_nonempty [of c xs] by (cases "split_on c xs") auto
  show ?case
  proof (cases "x = c")
    case True
    then show ?thesis using Cons ps by simp
  next
    case False
    show ?thesis
    proof (cases ps)
      case Nil
      with False Cons ps show ?thesis by simp
    next
      case (Cons q qs)
      with False Cons.IH ps show ?thesis by simp
    qed
  qed
qed

lemma last_result_append:
  "last_result fmt (xs @ ys)
     = (case last_result fmt ys of Some r \<Rightarrow> Some r | None \<Rightarrow> last_result fmt xs)"
  by (induction xs) (auto split: option.splits)

lemma last_result_none:
  "last_result fmt ls = None
     \<longleftrightarrow> (case fmt of None \<Rightarrow> True | Some f \<Rightarrow> \<forall>l \<in> set ls. \<not> is_done (f l))"
  by (induction ls) (auto split: option.splits)

lemma processLine_frame:
  "buf (processLine fmt now line s) = buf s"
  "settled (processLine fmt now line s) = settled s"
  "outcome (processLine fmt now line s) = outcome s"
  by (auto simp: processLine_def Let_def emit_def split: option.splits)

lemma processLine_result:
  "resultExitCode (processLine fmt now line s)
     = (case last_result fmt [line] of Some r \<Rightarrow> Some r | None \<Rightarrow> resultExitCode s)"
  by (auto simp: processLine_def Let_def emit_def latched_code_def split: option.splits)

lemma processLine_idleTimer:
  "idleTimer (processLine fmt now line s)
     = (if last_result fmt [line] = None then idleTimer s else Some (StaleKill, now + GRACE_MS))"
  by (auto simp: processLine_def Let_def emit_def split: option.splits)

lemma lines_frame:
  "buf (foldl (\<lambda>st l. processLine fmt now l st) s ls) = buf s"
  "settled (foldl (\<lambda>st l. processLine fmt now l st) s ls) = settled s"
  "outcome (foldl (\<lambda>st l. processLine fmt now l st) s ls) = outcome s"
  by (induction ls arbitrary: s) (simp_all add: processLine_frame)

lemma lines_result:
  "resultExitCode (foldl (\<lambda>st l. processLine fmt now l st) s ls)
     = (case last_result fmt ls of Some r \<Rightarrow> Some r | None \<Rightarrow> resultExitCode s)"
proof (induction ls arbitrary: s)
  case Nil
  then show ?case by simp
next
  case (Cons l ls)
  have "resultExitCode (foldl (\<lambda>st l. processLine fmt now l st) (processLine fmt now l s) ls)
          = (case last_result fmt ls of
               Some r \<Rightarrow> Some r
             | None \<Rightarrow> resultExitCode (processLine fmt now l s))"
    by (rule Cons.IH)
  then show ?case
    by (simp add: processLine_result split: option.splits)
qed

lemma lines_idleTimer:
  "idleTimer (foldl (\<lambda>st l. processLine fmt now l st) s ls)
     = (if last_result fmt ls = None then idleTimer s else Some (StaleKill, now + GRACE_MS))"
proof (induction ls arbitrary: s)
  case Nil
  then show ?case by simp
next
  case (Cons l ls)
  have "idleTimer (foldl (\<lambda>st l. processLine fmt now l st) (processLine fmt now l s) ls)
          = (if last_result fmt ls = None then idleTimer (processLine fmt now l s)
             else Some (StaleKill, now + GRACE_MS))"
    by (rule Cons.IH)
  then show ?case
    by (simp add: processLine_idleTimer split: option.splits)
qed

text \<open>A stdout chunk: the buffer, the latched code and the timer after it.\<close>

lemma stdout_chunk:
  fixes s :: supervisor and chunk :: string
  defines "pieces \<equiv> split_on (CHR 0x0A) (buf s @ chunk)"
  shows "buf (handle fmt s (StdoutData now chunk)) = last pieces"
    and "resultExitCode (handle fmt s (StdoutData now chunk))
           = (case last_result fmt (butlast pieces) of
                Some r \<Rightarrow> Some r | None \<Rightarrow> resultExitCode s)"
    and "settled (handle fmt s (StdoutData now chunk)) = settled s"
    and "outcome (handle fmt s (StdoutData now chunk)) = outcome s"
    and "idleTimer (handle fmt s (StdoutData now chunk))
           = (if last_result fmt (butlast pieces) \<noteq> None then Some (StaleKill, now + GRACE_MS)
              else if resultExitCode s = None then Some (IdleKill, now + IDLE_TIMEOUT_MS)
              else idleTimer s)"
  by (auto simp: handle.simps Let_def pieces_def lines_frame lines_result lines_idleTimer
        resetIdleTimer_def split: option.splits)

lemma running_frame:
  assumes "running e"
  shows "settled (handle fmt s e) = settled s" and "outcome (handle fmt s e) = outcome s"
  using assms
  by (cases e; simp add: stdout_chunk; simp add: handle.simps emit_def resetIdleTimer_def
        split: option.splits prod.splits)+


lemma quiet_event:
  "buf (handle fmt s (StderrData now chunk)) = buf s"
  "resultExitCode (handle fmt s (StderrData now chunk)) = resultExitCode s"
  "buf (handle fmt s (TimerDue now)) = buf s"
  "resultExitCode (handle fmt s (TimerDue now)) = resultExitCode s"
  by (auto simp: handle.simps emit_def resetIdleTimer_def split: option.splits prod.splits)

lemma split_on_no_sep: "p \<in> set (split_on c s) \<Longrightarrow> c \<notin> set p"
proof (induction s arbitrary: p)
  case Nil
  then show ?case by simp
next
  case (Cons x xs)
  obtain q qs where q: "split_on c xs = q # qs"
    using split_on_nonempty [of c xs] by (cases "split_on c xs") auto
  show ?case
  proof (cases "x = c")
    case True
    with Cons show ?thesis by auto
  next
    case False
    with Cons.prems q have "p = x # q \<or> p \<in> set qs" by auto
    then show ?thesis using Cons.IH [of q] Cons.IH [of p] q False by auto
  qed
qed

lemma last_piece_no_sep: "c \<notin> set (last (split_on c s))"
  using split_on_no_sep [of "last (split_on c s)" c s] split_on_nonempty [of c s] by simp

lemma running_events:
  assumes "\<forall>e \<in> set evs. running e" and "CHR 0x0A \<notin> set (buf s)"
  shows "buf (foldl (handle fmt) s evs) = last (split_on (CHR 0x0A) (buf s @ stdout_of evs))
       \<and> resultExitCode (foldl (handle fmt) s evs)
           = (case last_result fmt (butlast (split_on (CHR 0x0A) (buf s @ stdout_of evs))) of
                Some r \<Rightarrow> Some r | None \<Rightarrow> resultExitCode s)
       \<and> settled (foldl (handle fmt) s evs) = settled s
       \<and> outcome (foldl (handle fmt) s evs) = outcome s"
  using assms
proof (induction evs arbitrary: s)
  case Nil
  then show ?case by (simp add: split_on_absent)
next
  case (Cons e evs)
  from Cons.prems have re: "running e" and rest: "\<forall>e \<in> set evs. running e" by simp_all
  let ?s1 = "handle fmt s e"
  note fr = running_frame [OF re, of fmt s]
  show ?case
  proof (cases e)
    case (StdoutData now chunk)
    let ?a = "buf s @ chunk"
    let ?b = "stdout_of evs"
    note ch = stdout_chunk [of fmt s now chunk]
    have b1: "buf ?s1 = last (split_on (CHR 0x0A) ?a)" unfolding StdoutData by (rule ch(1))
    have r1: "resultExitCode ?s1
                = (case last_result fmt (butlast (split_on (CHR 0x0A) ?a)) of
                     Some r \<Rightarrow> Some r | None \<Rightarrow> resultExitCode s)"
      unfolding StdoutData by (rule ch(2))
    have nl: "CHR 0x0A \<notin> set (buf ?s1)" unfolding b1 by (rule last_piece_no_sep)
    note ih = Cons.IH [OF rest nl]
    have sp: "split_on (CHR 0x0A) (?a @ ?b)
                = butlast (split_on (CHR 0x0A) ?a) @ split_on (CHR 0x0A) (buf ?s1 @ ?b)"
      unfolding b1 by (rule split_on_append)
    have ne: "split_on (CHR 0x0A) (buf ?s1 @ ?b) \<noteq> []" by (rule split_on_nonempty)
    have whole: "buf s @ stdout_of (e # evs) = ?a @ ?b" unfolding StdoutData by simp
    have l: "last (split_on (CHR 0x0A) (?a @ ?b)) = last (split_on (CHR 0x0A) (buf ?s1 @ ?b))"
      unfolding sp using ne by simp
    have bl: "butlast (split_on (CHR 0x0A) (?a @ ?b))
                = butlast (split_on (CHR 0x0A) ?a) @ butlast (split_on (CHR 0x0A) (buf ?s1 @ ?b))"
      unfolding sp using ne by (simp add: butlast_append)
    show ?thesis
      unfolding whole l bl last_result_append
      using ih fr r1 by (auto split: option.splits)
  next
    case (StderrData now chunk)
    then have same: "buf ?s1 = buf s" "resultExitCode ?s1 = resultExitCode s"
      by (simp_all add: quiet_event)
    from Cons.IH [OF rest, of ?s1] Cons.prems(2) same fr StderrData show ?thesis
      by (auto split: option.splits)
  next
    case (TimerDue now)
    then have same: "buf ?s1 = buf s" "resultExitCode ?s1 = resultExitCode s"
      by (simp_all add: quiet_event)
    from Cons.IH [OF rest, of ?s1] Cons.prems(2) same fr TimerDue show ?thesis
      by (auto split: option.splits)
  next
    case (CloseEv now code)
    with re show ?thesis by simp
  next
    case ErrorEv
    with re show ?thesis by simp
  qed
qed

text \<open>
  The close: the rest of the output is read, and the invocation resolves with the latched
  code, else with the close code, else with 1.
\<close>

lemma close_event:
  assumes "\<not> settled s" and "outcome s = Pending"
  shows "outcome (handle fmt s (CloseEv now code))
           = Resolved (case (case last_result fmt (if buf s \<noteq> [] then [trimEnd (buf s)] else []) of
                               Some r \<Rightarrow> Some r | None \<Rightarrow> resultExitCode s) of
                         Some r \<Rightarrow> r
                       | None \<Rightarrow> (case code of Some c \<Rightarrow> c | None \<Rightarrow> 1))"
    and "idleTimer (handle fmt s (CloseEv now code)) = None"
    and "settled (handle fmt s (CloseEv now code))"
  using assms
  by (auto simp: handle.simps Let_def settle_def emit_def processLine_frame processLine_result
           split: option.splits)

lemma supervise_resolves:
  assumes "\<forall>e \<in> set evs. running e"
  shows "outcome (supervise fmt (evs @ [CloseEv now code]))
           = Resolved (case last_result fmt (lines_read (stdout_of evs)) of
                         Some r \<Rightarrow> r
                       | None \<Rightarrow> (case code of Some c \<Rightarrow> c | None \<Rightarrow> 1))"
proof -
  let ?s = "foldl (handle fmt) spawned evs"
  have nl: "CHR 0x0A \<notin> set (buf spawned)" by (simp add: spawned_fields)
  from running_events [OF assms nl, of fmt]
  have b: "buf ?s = unfinished (stdout_of evs)"
    and r: "resultExitCode ?s = last_result fmt (complete_lines (stdout_of evs))"
    and st: "\<not> settled ?s" "outcome ?s = Pending"
    by (auto simp: spawned_fields unfinished_def complete_lines_def split: option.splits)
  have "supervise fmt (evs @ [CloseEv now code]) = handle fmt ?s (CloseEv now code)"
    by (simp add: supervise_def)
  then show ?thesis
    unfolding lines_read_def last_result_append
    using close_event(1) [OF st, of fmt now code] b r
    by (auto split: option.splits)
qed


lemma last_result_last_done:
  assumes "is_done (f line)" and "\<forall>l \<in> set later. \<not> is_done (f l)"
  shows "last_result (Some f) (earlier @ line # later) = Some (latched_code (f line))"
proof -
  have "last_result (Some f) later = None" using assms(2) by (simp add: last_result_none)
  then have "last_result (Some f) (line # later) = Some (latched_code (f line))"
    using assms(1) by simp
  then show ?thesis by (simp add: last_result_append)
qed

lemma lines_one: "c \<notin> set l \<Longrightarrow> split_on c (l @ [c]) = [l, []]"
  by (simp add: split_on_sep)

lemma lines_two: "c \<notin> set l \<Longrightarrow> c \<notin> set r \<Longrightarrow> split_on c (l @ c # r) = [l, r]"
  by (simp add: split_on_sep split_on_absent)

text \<open>
  Claim C7 does not hold as stated. The agent writes an error result line and, without a
  final newline, a success result line. The error result latches 1 and arms the grace
  timer; the timer is due and the process is killed; at the close the unterminated rest is
  read, it is a terminal result too, and the invocation resolves with 0, not with 1.
\<close>

theorem later_result_replaces_latched_code_counterexample:
  "resultExitCode
     (supervise (Some (formatClaudeJsonLine sample_platform))
        [StdoutData 5 (error_line @ CHR 0x0A # ok_line)]) = Some 1
   \<and> Kill StaleKill
       \<in> set (effects
                (supervise (Some (formatClaudeJsonLine sample_platform))
                   [StdoutData 5 (error_line @ CHR 0x0A # ok_line), TimerDue 30005]))
   \<and> outcome
       (supervise (Some (formatClaudeJsonLine sample_platform))
          [StdoutData 5 (error_line @ CHR 0x0A # ok_line), TimerDue 30005, CloseEv 30010 None])
       = Resolved 0"
proof -
  let ?fmt = "Some (formatClaudeJsonLine sample_platform)"
  let ?out = "error_line @ CHR 0x0A # ok_line"
  let ?s1 = "handle ?fmt spawned (StdoutData 5 ?out)"
  have pieces: "split_on (CHR 0x0A) (buf spawned @ ?out) = [error_line, ok_line]"
    by (simp add: spawned_fields lines_two no_newline)
  have lr: "last_result ?fmt [error_line] = Some 1"
    by (simp add: format_error_line latched_code_def)
  have bl: "butlast [error_line, ok_line] = [error_line]" by simp
  have r1: "resultExitCode ?s1 = Some 1"
    using stdout_chunk(2) [of ?fmt spawned 5 ?out] unfolding pieces bl lr by simp
  have t1: "idleTimer ?s1 = Some (StaleKill, 5 + GRACE_MS)"
    using stdout_chunk(5) [of ?fmt spawned 5 ?out] unfolding pieces bl lr by simp
  have "handle ?fmt ?s1 (TimerDue 30005) = (emit (Kill StaleKill) ?s1)\<lparr>idleTimer := None\<rparr>"
    by (rule timer_fires [OF t1]) (simp add: GRACE_MS_def)
  then have k: "Kill StaleKill \<in> set (effects (handle ?fmt ?s1 (TimerDue 30005)))"
    by (simp add: emit_def)
  have run: "\<forall>e \<in> set [StdoutData 5 ?out, TimerDue 30005]. running e" by simp
  have "lines_read (stdout_of [StdoutData 5 ?out, TimerDue 30005]) = [error_line, ok_line]"
    by (simp add: lines_read_def complete_lines_def unfinished_def lines_two no_newline
          ok_line_nonempty trimEnd_ok_line)
  moreover have "last_result ?fmt [error_line, ok_line] = Some 0"
    by (simp add: format_ok_line latched_code_def)
  ultimately have o: "outcome (supervise ?fmt ([StdoutData 5 ?out, TimerDue 30005]
                                  @ [CloseEv 30010 None])) = Resolved 0"
    using supervise_resolves [OF run, of ?fmt 30010 None] by simp
  show ?thesis using r1 k o by (simp add: supervise_def)
qed

text \<open>
  Claim C7, amended. Whenever the normalizer reports \<open>done\<close> for a line, its code is
  latched and a timer of 30 seconds replaces the pending timer; after a stdout chunk with
  such lines the latched code is that of the last of them. While a code is latched, output
  that brings no terminal result leaves the timer alone. The timer does nothing before it
  is due; when it is due the process is killed and the latched code stays; a close clears
  the timer. When the process closes, killed or not and whatever its exit code, the
  invocation resolves with the code of the last terminal result among the lines read (the
  complete lines of the whole standard output and its unterminated rest): with the latched
  code \<open>E\<close> unless a later line is a terminal result too.
\<close>

theorem grace_timer_and_last_result:
  "(\<forall>f s now line.
      is_done (f line)
      \<longrightarrow> resultExitCode (processLine (Some f) now line s) = Some (latched_code (f line))
          \<and> idleTimer (processLine (Some f) now line s) = Some (StaleKill, now + 30000))
   \<and> (\<forall>s now chunk.
        last_result fmt (butlast (split_on (CHR 0x0A) (buf s @ chunk))) \<noteq> None
        \<longrightarrow> resultExitCode (handle fmt s (StdoutData now chunk))
              = last_result fmt (butlast (split_on (CHR 0x0A) (buf s @ chunk)))
            \<and> idleTimer (handle fmt s (StdoutData now chunk)) = Some (StaleKill, now + 30000))
   \<and> (\<forall>s now chunk.
        resultExitCode s \<noteq> None
        \<longrightarrow> idleTimer (handle fmt s (StderrData now chunk)) = idleTimer s
            \<and> resultExitCode (handle fmt s (StderrData now chunk)) = resultExitCode s
            \<and> (last_result fmt (butlast (split_on (CHR 0x0A) (buf s @ chunk))) = None
                 \<longrightarrow> idleTimer (handle fmt s (StdoutData now chunk)) = idleTimer s
                     \<and> resultExitCode (handle fmt s (StdoutData now chunk)) = resultExitCode s))
   \<and> (\<forall>s due t.
        idleTimer s = Some (StaleKill, due)
        \<longrightarrow> (t < due \<longrightarrow> handle fmt s (TimerDue t) = s)
            \<and> (due \<le> t
                 \<longrightarrow> handle fmt s (TimerDue t)
                       = s\<lparr>idleTimer := None, effects := effects s @ [Kill StaleKill]\<rparr>))
   \<and> (\<forall>s now code t.
        \<not> settled s \<and> outcome s = Pending
        \<longrightarrow> idleTimer (handle fmt s (CloseEv now code)) = None
            \<and> handle fmt (handle fmt s (CloseEv now code)) (TimerDue t)
                = handle fmt s (CloseEv now code))
   \<and> (\<forall>evs now code.
        (\<forall>e \<in> set evs. running e)
        \<longrightarrow> outcome (supervise fmt (evs @ [CloseEv now code]))
              = Resolved (case last_result fmt (lines_read (stdout_of evs)) of
                            Some r \<Rightarrow> r
                          | None \<Rightarrow> (case code of Some c \<Rightarrow> c | None \<Rightarrow> 1)))
   \<and> (\<forall>f evs now code earlier line later.
        fmt = Some f \<and> (\<forall>e \<in> set evs. running e)
        \<and> lines_read (stdout_of evs) = earlier @ line # later
        \<and> is_done (f line) \<and> (\<forall>l \<in> set later. \<not> is_done (f l))
        \<longrightarrow> outcome (supervise fmt (evs @ [CloseEv now code]))
              = Resolved (latched_code (f line)))"
proof -
  have a: "resultExitCode (processLine (Some f) now line s) = Some (latched_code (f line))
          \<and> idleTimer (processLine (Some f) now line s) = Some (StaleKill, now + 30000)"
    if "is_done (f line)" for f :: "string \<Rightarrow> stream_event" and s now line
    using that by (simp add: processLine_result processLine_idleTimer GRACE_MS_def)
  have b: "resultExitCode (handle fmt s (StdoutData now chunk))
              = last_result fmt (butlast (split_on (CHR 0x0A) (buf s @ chunk)))
            \<and> idleTimer (handle fmt s (StdoutData now chunk)) = Some (StaleKill, now + 30000)"
    if "last_result fmt (butlast (split_on (CHR 0x0A) (buf s @ chunk))) \<noteq> None" for s now chunk
    using that stdout_chunk(2,5) [of fmt s now chunk] by (auto simp: GRACE_MS_def)
  have c: "idleTimer (handle fmt s (StderrData now chunk)) = idleTimer s
            \<and> resultExitCode (handle fmt s (StderrData now chunk)) = resultExitCode s
            \<and> (last_result fmt (butlast (split_on (CHR 0x0A) (buf s @ chunk))) = None
                 \<longrightarrow> idleTimer (handle fmt s (StdoutData now chunk)) = idleTimer s
                     \<and> resultExitCode (handle fmt s (StdoutData now chunk)) = resultExitCode s)"
    if "resultExitCode s \<noteq> None" for s now chunk
    using that stdout_chunk(2,5) [of fmt s now chunk]
    by (auto simp: handle.simps emit_def)
  have d: "(t < due \<longrightarrow> handle fmt s (TimerDue t) = s)
            \<and> (due \<le> t
                 \<longrightarrow> handle fmt s (TimerDue t)
                       = s\<lparr>idleTimer := None, effects := effects s @ [Kill StaleKill]\<rparr>)"
    if "idleTimer s = Some (StaleKill, due)" for s due t
    using that by (simp add: handle.simps emit_def)
  have e: "idleTimer (handle fmt s (CloseEv now code)) = None
            \<and> handle fmt (handle fmt s (CloseEv now code)) (TimerDue t)
                = handle fmt s (CloseEv now code)"
    if "\<not> settled s \<and> outcome s = Pending" for s now code t
  proof -
    from that close_event(2) [of s fmt now code]
    have "idleTimer (handle fmt s (CloseEv now code)) = None" by simp
    then show ?thesis by (simp add: handle.simps)
  qed
  have g: "outcome (supervise fmt (evs @ [CloseEv now code]))
              = Resolved (case last_result fmt (lines_read (stdout_of evs)) of
                            Some r \<Rightarrow> r
                          | None \<Rightarrow> (case code of Some c \<Rightarrow> c | None \<Rightarrow> 1))"
    if "\<forall>e \<in> set evs. running e" for evs now code
    using that by (rule supervise_resolves)
  have h: "outcome (supervise fmt (evs @ [CloseEv now code])) = Resolved (latched_code (f line))"
    if "fmt = Some f \<and> (\<forall>e \<in> set evs. running e)
        \<and> lines_read (stdout_of evs) = earlier @ line # later
        \<and> is_done (f line) \<and> (\<forall>l \<in> set later. \<not> is_done (f l))"
    for f evs now code earlier line later
  proof -
    from that have "last_result fmt (lines_read (stdout_of evs)) = Some (latched_code (f line))"
      by (simp add: last_result_last_done)
    with g [of evs now code] that show ?thesis by simp
  qed
  have A: "\<forall>f s now line.
      is_done (f line)
      \<longrightarrow> resultExitCode (processLine (Some f) now line s) = Some (latched_code (f line))
          \<and> idleTimer (processLine (Some f) now line s) = Some (StaleKill, now + 30000)"
    using a by blast
  have B: "\<forall>s now chunk.
        last_result fmt (butlast (split_on (CHR 0x0A) (buf s @ chunk))) \<noteq> None
        \<longrightarrow> resultExitCode (handle fmt s (StdoutData now chunk))
              = last_result fmt (butlast (split_on (CHR 0x0A) (buf s @ chunk)))
            \<and> idleTimer (handle fmt s (StdoutData now chunk)) = Some (StaleKill, now + 30000)"
    using b by blast
  have C: "\<forall>s now chunk.
        resultExitCode s \<noteq> None
        \<longrightarrow> idleTimer (handle fmt s (StderrData now chunk)) = idleTimer s
            \<and> resultExitCode (handle fmt s (StderrData now chunk)) = resultExitCode s
            \<and> (last_result fmt (butlast (split_on (CHR 0x0A) (buf s @ chunk))) = None
                 \<longrightarrow> idleTimer (handle fmt s (StdoutData now chunk)) = idleTimer s
                     \<and> resultExitCode (handle fmt s (StdoutData now chunk)) = resultExitCode s)"
    using c by blast
  have D: "\<forall>s due t.
        idleTimer s = Some (StaleKill, due)
        \<longrightarrow> (t < due \<longrightarrow> handle fmt s (TimerDue t) = s)
            \<and> (due \<le> t
                 \<longrightarrow> handle fmt s (TimerDue t)
                       = s\<lparr>idleTimer := None, effects := effects s @ [Kill StaleKill]\<rparr>)"
    using d by blast
  have E: "\<forall>s now code t.
        \<not> settled s \<and> outcome s = Pending
        \<longrightarrow> idleTimer (handle fmt s (CloseEv now code)) = None
            \<and> handle fmt (handle fmt s (CloseEv now code)) (TimerDue t)
                = handle fmt s (CloseEv now code)"
    using e by blast
  have G: "\<forall>evs now code.
        (\<forall>e \<in> set evs. running e)
        \<longrightarrow> outcome (supervise fmt (evs @ [CloseEv now code]))
              = Resolved (case last_result fmt (lines_read (stdout_of evs)) of
                            Some r \<Rightarrow> r
                          | None \<Rightarrow> (case code of Some c \<Rightarrow> c | None \<Rightarrow> 1))"
    using g by blast
  have H: "\<forall>f evs now code earlier line later.
        fmt = Some f \<and> (\<forall>e \<in> set evs. running e)
        \<and> lines_read (stdout_of evs) = earlier @ line # later
        \<and> is_done (f line) \<and> (\<forall>l \<in> set later. \<not> is_done (f l))
        \<longrightarrow> outcome (supervise fmt (evs @ [CloseEv now code]))
              = Resolved (latched_code (f line))"
    using h by blast
  show ?thesis by (intro conjI) (rule A B C D E G H)+
qed


theorem grace_timer_and_last_result_witness:
  "is_done (formatClaudeJsonLine sample_platform error_line)
   \<and> lines_read (stdout_of [StdoutData 5 (error_line @ [CHR 0x0A]), TimerDue 30005])
       = [] @ error_line # []
   \<and> outcome
       (supervise (Some (formatClaudeJsonLine sample_platform))
          ([StdoutData 5 (error_line @ [CHR 0x0A]), TimerDue 30005] @ [CloseEv 40000 None]))
       = Resolved 1"
proof -
  let ?f = "formatClaudeJsonLine sample_platform"
  let ?evs = "[StdoutData 5 (error_line @ [CHR 0x0A]), TimerDue 30005]"
  have d: "is_done (?f error_line)" by (simp add: format_error_line)
  have run: "\<forall>e \<in> set ?evs. running e" by simp
  have lr: "lines_read (stdout_of ?evs) = [] @ error_line # []"
    by (simp add: lines_read_def complete_lines_def unfinished_def lines_one no_newline)
  have none: "\<forall>l \<in> set []. \<not> is_done (?f l)" by simp
  from grace_timer_and_last_result [of "Some ?f"]
  have "\<forall>f evs now code earlier line later.
        Some ?f = Some f \<and> (\<forall>e \<in> set evs. running e)
        \<and> lines_read (stdout_of evs) = earlier @ line # later
        \<and> is_done (f line) \<and> (\<forall>l \<in> set later. \<not> is_done (f l))
        \<longrightarrow> outcome (supervise (Some ?f) (evs @ [CloseEv now code]))
              = Resolved (latched_code (f line))"
    by blast
  from this [rule_format, of ?f ?evs "[]" error_line "[]" 40000 None] run lr d none
  have "outcome (supervise (Some ?f) (?evs @ [CloseEv 40000 None]))
          = Resolved (latched_code (?f error_line))"
    by blast
  then show ?thesis using d lr by (simp add: format_error_line latched_code_def)
qed

section \<open>A result line and the batch\<close>

lemma cost_line_event:
  "formatClaudeJsonLine cost_platform cost_line
     = \<lparr>text_of = cost_line @ [CHR 0x0A], is_done = False, exitCode = None\<rparr>"
  by (simp add: formatClaudeJsonLine_def cost_platform_def result_throws_def passthrough_def
        endsWith_def cost_line_def)

lemma cost_line_no_newline: "CHR 0x0A \<notin> set cost_line"
  by (simp add: cost_line_def)

text \<open>
  Claim C5 does not hold as stated. The line
  \<open>{"type":"result","is_error":true,"total_cost_usd":"0.10"}\<close> parses as a result object with
  the error flag set, but rendering its cost raises inside the \<open>try\<close>, so the line is passed
  through as text: no \<open>done\<close>, no exit code, and an agent that then exits with code 0
  resolves 0.
\<close>

theorem result_with_string_cost_counterexample:
  "JSON_parse cost_platform cost_line
     = Some (JObj [(''type'', JStr ''result''), (''is_error'', JBool True),
                   (''total_cost_usd'', JStr ''0.10'')])
   \<and> \<not> is_done (formatClaudeJsonLine cost_platform cost_line)
   \<and> exitCode (formatClaudeJsonLine cost_platform cost_line) = None
   \<and> outcome
       (supervise (Some (formatClaudeJsonLine cost_platform))
          [StdoutData 5 (cost_line @ [CHR 0x0A]), CloseEv 9 (Some 0)])
       = Resolved 0"
proof -
  let ?fmt = "Some (formatClaudeJsonLine cost_platform)"
  have p: "JSON_parse cost_platform cost_line
     = Some (JObj [(''type'', JStr ''result''), (''is_error'', JBool True),
                   (''total_cost_usd'', JStr ''0.10'')])"
    by (simp add: cost_platform_def)
  have run: "\<forall>e \<in> set [StdoutData 5 (cost_line @ [CHR 0x0A])]. running e" by simp
  have lr: "lines_read (stdout_of [StdoutData 5 (cost_line @ [CHR 0x0A])]) = [cost_line]"
    by (simp add: lines_read_def complete_lines_def unfinished_def lines_one cost_line_no_newline)
  have "last_result ?fmt [cost_line] = None" by (simp add: cost_line_event)
  with supervise_resolves [OF run, of ?fmt 9 "Some 0"] lr
  have "outcome (supervise ?fmt ([StdoutData 5 (cost_line @ [CHR 0x0A])] @ [CloseEv 9 (Some 0)]))
          = Resolved 0"
    by simp
  then show ?thesis using p by (simp add: cost_line_event)
qed

text \<open>
  Claim C5, amended. A line that parses as a result object whose cost is absent, \<open>null\<close> or
  a number and whose duration and result convert without raising gives an event with
  \<open>done\<close> and the exit code 1 when the error flag is truthy, 0 otherwise. When the process
  closes, the invocation resolves with the code of the last such terminal result among the
  lines read, whatever the chunks, the timers and the close code; in the driver that code,
  when it is 1, ends the batch with exit code 1 and no further attempt, and when it is 0,
  lets the loop go on with the next ticket.
\<close>

theorem result_line_and_resolved_code:
  fixes P :: platform and line :: string and obj :: json
  assumes "JSON_parse P line = Some obj" and "get_prop obj ''type'' = Some (JStr ''result'')"
    and "\<not> result_throws obj"
  defines "E \<equiv> (if truthy (get_prop obj ''is_error'') then 1 else 0 :: int)"
  shows "formatClaudeJsonLine P line
           = \<lparr>text_of = result_text P obj, is_done = True, exitCode = Some E\<rparr>
       \<and> (\<forall>evs now code earlier later.
             (\<forall>e \<in> set evs. running e)
             \<and> lines_read (stdout_of evs) = earlier @ line # later
             \<and> (\<forall>l \<in> set later. \<not> is_done (formatClaudeJsonLine P l))
             \<longrightarrow> outcome (supervise (Some (formatClaudeJsonLine P)) (evs @ [CloseEv now code]))
                   = Resolved E)
       \<and> (\<forall>env fs fs' t rest logsDir n i evs now code earlier later.
             (\<forall>e \<in> set evs. running e)
             \<and> lines_read (stdout_of evs) = earlier @ line # later
             \<and> (\<forall>l \<in> set later. \<not> is_done (formatClaudeJsonLine P l))
             \<and> writable fs (logPath logsDir t (timestamp env i))
             \<and> buildPrompt env fs t \<noteq> None
             \<and> writable fs (instructionFile_of (logPath logsDir t (timestamp env i)))
             \<and> child env (invoke (claude_adapter P
                                     (instructionFile_of (logPath logsDir t (timestamp env i)))
                                     (stage t))) t fs
                 = (evs @ [CloseEv now code], fs')
             \<longrightarrow> (E = 1 \<longrightarrow>
                    runs (process_tickets P env (Some ''claude'') logsDir n i (t # rest) fs)
                      = [(t, Resolved 1)]
                    \<and> exit_code (process_tickets P env (Some ''claude'') logsDir n i (t # rest) fs)
                        = Some 1
                    \<and> spawned_tickets
                        (trace (process_tickets P env (Some ''claude'') logsDir n i (t # rest) fs))
                        = [t])
                 \<and> (E = 0 \<longrightarrow>
                    runs (process_tickets P env (Some ''claude'') logsDir n i (t # rest) fs)
                      = (t, Resolved 0)
                        # runs (process_tickets P env (Some ''claude'') logsDir n (i + 1) rest fs')
                    \<and> exit_code (process_tickets P env (Some ''claude'') logsDir n i (t # rest) fs)
                        = exit_code (process_tickets P env (Some ''claude'') logsDir n (i + 1)
                                       rest fs')))"
proof -
  let ?f = "formatClaudeJsonLine P"
  have ev: "?f line = \<lparr>text_of = result_text P obj, is_done = True, exitCode = Some E\<rparr>"
    unfolding E_def by (rule result_event [OF assms(1,2,3)])
  then have d: "is_done (?f line)" and e: "latched_code (?f line) = E"
    by (simp_all add: latched_code_def)
  have sup: "outcome (supervise (Some ?f) (evs @ [CloseEv now code])) = Resolved E"
    if "\<forall>e \<in> set evs. running e" "lines_read (stdout_of evs) = earlier @ line # later"
      "\<forall>l \<in> set later. \<not> is_done (?f l)"
    for evs now code earlier later
    using supervise_resolves [OF that(1), of "Some ?f" now code]
      last_result_last_done [OF d that(3), of earlier] that(2) e
    by simp
  have drv: "(E = 1 \<longrightarrow>
                    runs (process_tickets P env (Some ''claude'') logsDir n i (t # rest) fs)
                      = [(t, Resolved 1)]
                    \<and> exit_code (process_tickets P env (Some ''claude'') logsDir n i (t # rest) fs)
                        = Some 1
                    \<and> spawned_tickets
                        (trace (process_tickets P env (Some ''claude'') logsDir n i (t # rest) fs))
                        = [t])
                 \<and> (E = 0 \<longrightarrow>
                    runs (process_tickets P env (Some ''claude'') logsDir n i (t # rest) fs)
                      = (t, Resolved 0)
                        # runs (process_tickets P env (Some ''claude'') logsDir n (i + 1) rest fs')
                    \<and> exit_code (process_tickets P env (Some ''claude'') logsDir n i (t # rest) fs)
                        = exit_code (process_tickets P env (Some ''claude'') logsDir n (i + 1)
                                       rest fs'))"
    if run: "\<forall>e \<in> set evs. running e"
      and lr: "lines_read (stdout_of evs) = earlier @ line # later"
      and nd: "\<forall>l \<in> set later. \<not> is_done (?f l)"
      and w: "writable fs (logPath logsDir t (timestamp env i))"
      and bp: "buildPrompt env fs t \<noteq> None"
      and wi: "writable fs (instructionFile_of (logPath logsDir t (timestamp env i)))"
      and ch: "child env (invoke (claude_adapter P
                                     (instructionFile_of (logPath logsDir t (timestamp env i)))
                                     (stage t))) t fs
                 = (evs @ [CloseEv now code], fs')"
    for env fs fs' t rest logsDir n i evs now code earlier later
  proof -
    from sup [OF run lr nd] runAgent_claude [OF wi ch] obtain es where
      ra: "runAgent P env (Some ''claude'') (logPath logsDir t (timestamp env i)) t fs
             = (Settled (Resolved E), es, fs')" by auto
    show ?thesis
    proof (cases "E = 0")
      case True
      with process_tickets_go [OF w bp, of P "Some ''claude''" es fs' n rest] ra
      show ?thesis by simp
    next
      case False
      have "spawned_tickets (trace (process_tickets P env (Some ''claude'') logsDir n i (t # rest) fs))
              = map fst (runs (process_tickets P env (Some ''claude'') logsDir n i (t # rest) fs))"
        by (rule process_tickets_spawned)
      with False process_tickets_stop [OF w bp ra, of n rest] show ?thesis by simp
    qed
  qed
  have S: "(\<forall>evs now code earlier later.
             (\<forall>e \<in> set evs. running e)
             \<and> lines_read (stdout_of evs) = earlier @ line # later
             \<and> (\<forall>l \<in> set later. \<not> is_done (formatClaudeJsonLine P l))
             \<longrightarrow> outcome (supervise (Some (formatClaudeJsonLine P)) (evs @ [CloseEv now code]))
                   = Resolved E)"
    using sup by blast
  have V: "(\<forall>env fs fs' t rest logsDir n i evs now code earlier later.
             (\<forall>e \<in> set evs. running e)
             \<and> lines_read (stdout_of evs) = earlier @ line # later
             \<and> (\<forall>l \<in> set later. \<not> is_done (formatClaudeJsonLine P l))
             \<and> writable fs (logPath logsDir t (timestamp env i))
             \<and> buildPrompt env fs t \<noteq> None
             \<and> writable fs (instructionFile_of (logPath logsDir t (timestamp env i)))
             \<and> child env (invoke (claude_adapter P
                                     (instructionFile_of (logPath logsDir t (timestamp env i)))
                                     (stage t))) t fs
                 = (evs @ [CloseEv now code], fs')
             \<longrightarrow> (E = 1 \<longrightarrow>
                    runs (process_tickets P env (Some ''claude'') logsDir n i (t # rest) fs)
                      = [(t, Resolved 1)]
                    \<and> exit_code (process_tickets P env (Some ''claude'') logsDir n i (t # rest) fs)
                        = Some 1
                    \<and> spawned_tickets
                        (trace (process_tickets P env (Some ''claude'') logsDir n i (t # rest) fs))
                        = [t])
                 \<and> (E = 0 \<longrightarrow>
                    runs (process_tickets P env (Some ''claude'') logsDir n i (t # rest) fs)
                      = (t, Resolved 0)
                        # runs (process_tickets P env (Some ''claude'') logsDir n (i + 1) rest fs')
                    \<and> exit_code (process_tickets P env (Some ''claude'') logsDir n i (t # rest) fs)
                        = exit_code (process_tickets P env (Some ''claude'') logsDir n (i + 1)
                                       rest fs')))"
    using drv by blast
  show ?thesis by (intro conjI) (rule ev S V)+
qed

theorem result_line_and_resolved_code_witness:
  "JSON_parse sample_platform error_line
     = Some (JObj [(''type'', JStr ''result''), (''is_error'', JBool True)])
   \<and> get_prop (JObj [(''type'', JStr ''result''), (''is_error'', JBool True)]) ''type''
       = Some (JStr ''result'')
   \<and> \<not> result_throws (JObj [(''type'', JStr ''result''), (''is_error'', JBool True)])
   \<and> formatClaudeJsonLine sample_platform error_line
       = \<lparr>text_of = ''[RESULT]'', is_done = True, exitCode = Some 1\<rparr>"
proof -
  let ?obj = "JObj [(''type'', JStr ''result''), (''is_error'', JBool True)]"
  have a: "JSON_parse sample_platform error_line = Some ?obj"
    by (simp add: sample_platform_def lines_differ)
  have b: "get_prop ?obj ''type'' = Some (JStr ''result'')" by simp
  have c: "\<not> result_throws ?obj" by (simp add: result_throws_def)
  from result_line_and_resolved_code [OF a b c]
  have "formatClaudeJsonLine sample_platform error_line
          = \<lparr>text_of = result_text sample_platform ?obj, is_done = True,
             exitCode = Some (if truthy (get_prop ?obj ''is_error'') then 1 else 0)\<rparr>"
    by blast
  then show ?thesis using a b c by (simp add: sample_platform_def)
qed

section \<open>The batch\<close>

lemma attempt_resolved:
  assumes "attempt P env agentName logsDir i t fs = Some (c, fs')"
  shows "writable fs (logPath logsDir t (timestamp env i))"
    and "buildPrompt env fs t \<noteq> None"
    and "\<exists>es. runAgent P env agentName (logPath logsDir t (timestamp env i)) t fs
                = (Settled (Resolved c), es, fs')"
  using assms
  by (auto simp: attempt_def split: if_splits prod.splits agent_outcome.splits promise.splits)

lemma process_tickets_refines:
  "fail_stop (attempt P env agentName logsDir) i ts fs = Some (attempted, c)
     \<Longrightarrow> map fst (runs (process_tickets P env agentName logsDir n i ts fs)) = attempted
       \<and> exit_code (process_tickets P env agentName logsDir n i ts fs) = Some c
       \<and> attempted = take (length attempted) ts
       \<and> (c = 0 \<longrightarrow> attempted = ts
              \<and> runs (process_tickets P env agentName logsDir n i ts fs)
                  = map (\<lambda>u. (u, Resolved 0)) ts)
       \<and> (c \<noteq> 0 \<longrightarrow> (\<exists>earlier t. attempted = earlier @ [t]
              \<and> runs (process_tickets P env agentName logsDir n i ts fs)
                  = map (\<lambda>u. (u, Resolved 0)) earlier @ [(t, Resolved c)]))"
proof (induction ts arbitrary: i fs attempted c)
  case Nil
  then show ?case by (simp add: finish_def)
next
  case (Cons t rest)
  from Cons.prems obtain code fs' where
    at: "attempt P env agentName logsDir i t fs = Some (code, fs')"
    by (auto split: option.splits)
  note ar = attempt_resolved [OF at]
  from ar(3) obtain es where
    ra: "runAgent P env agentName (logPath logsDir t (timestamp env i)) t fs
           = (Settled (Resolved code), es, fs')" by blast
  show ?case
  proof (cases "code = 0")
    case False
    with Cons.prems at have res: "attempted = [t]" "c = code" by simp_all
    from process_tickets_stop [OF ar(1,2) ra False, of n rest] res False
    show ?thesis by (auto intro: exI [of _ "[]"])
  next
    case True
    with Cons.prems at obtain ts' where
      fs: "fail_stop (attempt P env agentName logsDir) (i + 1) rest fs' = Some (ts', c)"
      and res: "attempted = t # ts'"
      by (auto split: option.splits)
    note ih = Cons.IH [OF fs]
    from ra True have ra0: "runAgent P env agentName (logPath logsDir t (timestamp env i)) t fs
           = (Settled (Resolved 0), es, fs')" by simp
    note go = process_tickets_go [OF ar(1,2) ra0, of n rest]
    have "c \<noteq> 0 \<longrightarrow> (\<exists>earlier u. attempted = earlier @ [u]
              \<and> runs (process_tickets P env agentName logsDir n i (t # rest) fs)
                  = map (\<lambda>u. (u, Resolved 0)) earlier @ [(u, Resolved c)])"
    proof
      assume "c \<noteq> 0"
      with ih obtain earlier u where "ts' = earlier @ [u]"
        "runs (process_tickets P env agentName logsDir n (i + 1) rest fs')
           = map (\<lambda>u. (u, Resolved 0)) earlier @ [(u, Resolved c)]" by blast
      then show "\<exists>earlier u. attempted = earlier @ [u]
              \<and> runs (process_tickets P env agentName logsDir n i (t # rest) fs)
                  = map (\<lambda>u. (u, Resolved 0)) earlier @ [(u, Resolved c)]"
        using go res by (intro exI [of _ "t # earlier"] exI [of _ u]) simp
    qed
    then show ?thesis using ih go res by simp
  qed
qed

lemma main_refines:
  assumes "parseArgs argv = Inr cfg"
    and "snd (discoverAll fs (join (cwd env) ''tickets'') (stages cfg)) = Some allTickets"
    and "\<not> dryRun cfg"
    and "writable fs (join (join (cwd env) ''tickets'') ''.logs'')"
  shows "(allTickets = [] \<longrightarrow> runs (main P env argv fs) = []
            \<and> exit_code (main P env argv fs) = Some 0
            \<and> spawned_tickets (trace (main P env argv fs)) = [])
       \<and> (allTickets \<noteq> [] \<longrightarrow>
            runs (main P env argv fs)
              = runs (process_tickets P env (agent cfg) (join (join (cwd env) ''tickets'') ''.logs'')
                        (length (run_order (stages cfg) allTickets)) 0
                        (run_order (stages cfg) allTickets) fs)
            \<and> exit_code (main P env argv fs)
                = exit_code (process_tickets P env (agent cfg)
                               (join (join (cwd env) ''tickets'') ''.logs'')
                               (length (run_order (stages cfg) allTickets)) 0
                               (run_order (stages cfg) allTickets) fs)
            \<and> spawned_tickets (trace (main P env argv fs))
                = map fst (runs (main P env argv fs)))"
proof -
  obtain es where d: "discoverAll fs (join (cwd env) ''tickets'') (stages cfg) = (es, Some allTickets)"
    using assms(2) by (cases "discoverAll fs (join (cwd env) ''tickets'') (stages cfg)") auto
  have es: "spawned_tickets es = []"
    using discoverAll_effects [of fs "join (cwd env) ''tickets''" "stages cfg"] d
    by (simp add: spawned_tickets_discover)
  have empty: "runs (main P env argv fs) = [] \<and> exit_code (main P env argv fs) = Some 0
            \<and> spawned_tickets (trace (main P env argv fs)) = []" if "allTickets = []"
    using main_nothing_to_run(1) [OF assms(1) d that, of P] es
    by (simp add: spawned_tickets_append)
  have batch: "runs (main P env argv fs)
              = runs (process_tickets P env (agent cfg) (join (join (cwd env) ''tickets'') ''.logs'')
                        (length (run_order (stages cfg) allTickets)) 0
                        (run_order (stages cfg) allTickets) fs)
            \<and> exit_code (main P env argv fs)
                = exit_code (process_tickets P env (agent cfg)
                               (join (join (cwd env) ''tickets'') ''.logs'')
                               (length (run_order (stages cfg) allTickets)) 0
                               (run_order (stages cfg) allTickets) fs)
            \<and> spawned_tickets (trace (main P env argv fs))
                = map fst (runs (main P env argv fs))" if "allTickets \<noteq> []"
    unfolding main_batch [OF assms(1) d that assms(3,4), of P] before_def
    using es by (simp add: spawned_tickets_append process_tickets_spawned)
  show ?thesis using empty batch by blast
qed


lemma attempt_claude:
  assumes "writable fs (logPath logsDir t (timestamp env i))"
    and "buildPrompt env fs t \<noteq> None"
    and "writable fs (instructionFile_of (logPath logsDir t (timestamp env i)))"
    and "child env (invoke (claude_adapter P
                              (instructionFile_of (logPath logsDir t (timestamp env i)))
                              (stage t))) t fs = (evs, fs')"
    and "outcome (supervise (Some (formatClaudeJsonLine P)) evs) = Resolved c"
  shows "attempt P env (Some ''claude'') logsDir i t fs = Some (c, fs')"
proof -
  from runAgent_claude [OF assms(3,4)] assms(5) obtain es where
    "runAgent P env (Some ''claude'') (logPath logsDir t (timestamp env i)) t fs
       = (Settled (Resolved c), es, fs')" by auto
  with assms(1,2) show ?thesis by (simp add: attempt_def)
qed

lemma one_line_run:
  assumes "CHR 0x0A \<notin> set l"
  shows "outcome (supervise fmt [StdoutData now (l @ [CHR 0x0A]), CloseEv later code])
           = Resolved (case last_result fmt [l] of
                         Some r \<Rightarrow> r
                       | None \<Rightarrow> (case code of Some c \<Rightarrow> c | None \<Rightarrow> 1))"
proof -
  have run: "\<forall>e \<in> set [StdoutData now (l @ [CHR 0x0A])]. running e" by simp
  have "lines_read (stdout_of [StdoutData now (l @ [CHR 0x0A])]) = [l]"
    by (simp add: lines_read_def complete_lines_def unfinished_def lines_one [OF assms])
  with supervise_resolves [OF run, of fmt later code] show ?thesis by simp
qed

lemma second_fails_batch:
  "fail_stop (attempt sample_platform second_fails_env (Some ''claude'')
                (join ''/repo/tickets'' ''.logs''))
     0 [ticket_5a, ticket_3c, ticket_5b] three_fs
     = Some ([ticket_5a, ticket_3c], 1)"
proof -
  let ?f = "formatClaudeJsonLine sample_platform"
  let ?logs = "join ''/repo/tickets'' ''.logs''"
  have w: "writable three_fs p" for p by (simp add: three_fs_def)
  have bp: "buildPrompt second_fails_env three_fs t \<noteq> None" for t
    by (simp add: buildPrompt_def three_fs_def)
  have ok: "outcome (supervise (Some ?f) [StdoutData 5 (ok_line @ [CHR 0x0A]), CloseEv 9 (Some 0)])
              = Resolved 0"
    using one_line_run [OF no_newline(1), of "Some ?f" 5 9 "Some 0"]
    by (simp add: format_ok_line latched_code_def)
  have err: "outcome (supervise (Some ?f) [StdoutData 5 (error_line @ [CHR 0x0A]), CloseEv 9 (Some 0)])
              = Resolved 1"
    using one_line_run [OF no_newline(2), of "Some ?f" 5 9 "Some 0"]
    by (simp add: format_error_line latched_code_def)
  have c1: "child second_fails_env c ticket_5a three_fs
              = ([StdoutData 5 (ok_line @ [CHR 0x0A]), CloseEv 9 (Some 0)], three_fs)" for c
    by (simp add: second_fails_env_def ticket_5a_def)
  have c2: "child second_fails_env c ticket_3c three_fs
              = ([StdoutData 5 (error_line @ [CHR 0x0A]), CloseEv 9 (Some 0)], three_fs)" for c
    by (simp add: second_fails_env_def ticket_3c_def)
  have a1: "attempt sample_platform second_fails_env (Some ''claude'') ?logs 0 ticket_5a three_fs
              = Some (0, three_fs)"
    by (rule attempt_claude [OF w bp w c1 ok])
  have a2: "attempt sample_platform second_fails_env (Some ''claude'') ?logs (Suc 0) ticket_3c three_fs
              = Some (1, three_fs)"
    by (rule attempt_claude [OF w bp w c2 err])
  show ?thesis by (simp add: a1 a2)
qed

text \<open>
  Claim C1. The driver is the fail-stop batch of the specification, run on the snapshot
  with the codes the supervisor's invocations resolve with: the tickets an agent is spawned
  for are those the batch attempts, in snapshot order, and the program's exit code is the
  batch's. So when every ticket resolves 0 every ticket of the snapshot is attempted and
  the program exits 0, and the first ticket that resolves a non-zero code is the last one
  attempted and its code is the exit code. In every run, resolved or not, the attempted
  tickets are a prefix of the snapshot, every attempt before the last resolved 0, and a
  non-zero resolved code is the last attempt and the exit code.
\<close>

theorem fail_stop_batch:
  assumes "parseArgs argv = Inr cfg"
    and "snd (discoverAll fs (join (cwd env) ''tickets'') (stages cfg)) = Some allTickets"
  shows "(\<exists>k \<le> length (run_order (stages cfg) allTickets).
            map fst (runs (main P env argv fs)) = take k (run_order (stages cfg) allTickets))
       \<and> spawned_tickets (trace (main P env argv fs)) = map fst (runs (main P env argv fs))
       \<and> (\<forall>x \<in> set (butlast (runs (main P env argv fs))). snd x = Resolved 0)
       \<and> (\<forall>t c. (t, Resolved c) \<in> set (runs (main P env argv fs)) \<and> c \<noteq> 0
             \<longrightarrow> last (runs (main P env argv fs)) = (t, Resolved c)
                 \<and> exit_code (main P env argv fs) = Some c)
       \<and> ((\<forall>x \<in> set (runs (main P env argv fs)). snd x = Resolved 0)
            \<and> length (runs (main P env argv fs)) = length (run_order (stages cfg) allTickets)
           \<longrightarrow> exit_code (main P env argv fs) = Some 0)
       \<and> (\<forall>attempted c.
             \<not> dryRun cfg \<and> writable fs (join (join (cwd env) ''tickets'') ''.logs'')
             \<and> fail_stop (attempt P env (agent cfg) (join (join (cwd env) ''tickets'') ''.logs''))
                  0 (run_order (stages cfg) allTickets) fs = Some (attempted, c)
             \<longrightarrow> spawned_tickets (trace (main P env argv fs)) = attempted
                 \<and> map fst (runs (main P env argv fs)) = attempted
                 \<and> exit_code (main P env argv fs) = Some c
                 \<and> attempted = take (length attempted) (run_order (stages cfg) allTickets)
                 \<and> (c = 0 \<longrightarrow> attempted = run_order (stages cfg) allTickets
                        \<and> runs (main P env argv fs)
                            = map (\<lambda>u. (u, Resolved 0)) (run_order (stages cfg) allTickets))
                 \<and> (c \<noteq> 0 \<longrightarrow> (\<exists>earlier t. attempted = earlier @ [t]
                        \<and> runs (main P env argv fs)
                            = map (\<lambda>u. (u, Resolved 0)) earlier @ [(t, Resolved c)])))"
proof -
  let ?tdir = "join (cwd env) ''tickets''"
  let ?snap = "run_order (stages cfg) allTickets"
  let ?r = "main P env argv fs"
  let ?pt = "process_tickets P env (agent cfg) (join ?tdir ''.logs'') (length ?snap) 0 ?snap fs"
  from main_shape [OF assms(1), of P env fs] obtain rest where
    tr: "trace ?r = fst (discoverAll fs ?tdir (stages cfg)) @ rest"
    and alt: "(runs ?r = [] \<and> spawned_tickets rest = []
                \<and> (exit_code ?r = Some 0
                    \<or> exit_code ?r = Some 1 \<and> snd (discoverAll fs ?tdir (stages cfg)) \<noteq> Some []))
            \<or> (runs ?r = runs ?pt \<and> exit_code ?r = exit_code ?pt
                \<and> spawned_tickets rest = spawned_tickets (trace ?pt))"
    using assms(2) by auto
  have sp: "spawned_tickets (trace ?r) = spawned_tickets rest"
    unfolding tr by (simp add: spawned_tickets_append spawned_tickets_discover discoverAll_effects)
  have earlier: "\<forall>x \<in> set (butlast (runs ?r)). snd x = Resolved 0"
    using alt process_tickets_earlier_ok [of P env "agent cfg" "join ?tdir ''.logs''" "length ?snap" 0 ?snap fs]
    by auto
  have prefix: "\<exists>k \<le> length ?snap. map fst (runs ?r) = take k ?snap"
  proof (cases "runs ?r = runs ?pt")
    case True
    with process_tickets_prefix [of ?snap P env "agent cfg" "join ?tdir ''.logs''" "length ?snap" 0 fs]
    show ?thesis by simp
  next
    case False
    with alt have "runs ?r = []" by auto
    then show ?thesis by (intro exI [of _ 0]) simp
  qed
  have spawned: "spawned_tickets (trace ?r) = map fst (runs ?r)"
    using alt sp process_tickets_spawned [of P env "agent cfg" "join ?tdir ''.logs''" "length ?snap" 0 ?snap fs]
    by auto
  have failing: "last (runs ?r) = (t, Resolved c) \<and> exit_code ?r = Some c"
    if "(t, Resolved c) \<in> set (runs ?r)" "c \<noteq> 0" for t c
  proof -
    from that(1) have ne: "runs ?r \<noteq> []" by auto
    have "(t, Resolved c) \<notin> set (butlast (runs ?r))" using earlier that(2) by auto
    with that(1) ne have l: "last (runs ?r) = (t, Resolved c)"
      by (metis append_butlast_last_id in_set_butlast_appendI insert_iff list.set(1) list.set(2) set_append Un_iff)
    from alt ne have eq: "runs ?r = runs ?pt" "exit_code ?r = exit_code ?pt" by auto
    from process_tickets_failure_code [of P env "agent cfg" "join ?tdir ''.logs''" "length ?snap" 0 ?snap fs t c]
      ne l that(2) eq show ?thesis by simp
  qed
  have clean: "exit_code ?r = Some 0"
    if "\<forall>x \<in> set (runs ?r). snd x = Resolved 0" "length (runs ?r) = length ?snap"
  proof (cases "runs ?r = runs ?pt \<and> exit_code ?r = exit_code ?pt")
    case True
    with that process_tickets_clean [of P env "agent cfg" "join ?tdir ''.logs''" "length ?snap" 0 ?snap fs]
    show ?thesis by simp
  next
    case False
    with alt have e: "runs ?r = []"
      "exit_code ?r = Some 0 \<or> exit_code ?r = Some 1 \<and> snd (discoverAll fs ?tdir (stages cfg)) \<noteq> Some []"
      by auto
    with that(2) have "allTickets = []" by (simp add: length_run_order)
    with e assms(2) show ?thesis by auto
  qed
  have refines: "spawned_tickets (trace ?r) = attempted
                 \<and> map fst (runs ?r) = attempted
                 \<and> exit_code ?r = Some c
                 \<and> attempted = take (length attempted) ?snap
                 \<and> (c = 0 \<longrightarrow> attempted = ?snap
                        \<and> runs ?r = map (\<lambda>u. (u, Resolved 0)) ?snap)
                 \<and> (c \<noteq> 0 \<longrightarrow> (\<exists>earlier t. attempted = earlier @ [t]
                        \<and> runs ?r = map (\<lambda>u. (u, Resolved 0)) earlier @ [(t, Resolved c)]))"
    if nd: "\<not> dryRun cfg" and w: "writable fs (join ?tdir ''.logs'')"
      and fs: "fail_stop (attempt P env (agent cfg) (join ?tdir ''.logs'')) 0 ?snap fs
                 = Some (attempted, c)"
    for attempted c
  proof (cases "allTickets = []")
    case True
    then have "?snap = []" using length_run_order [of "stages cfg" allTickets] by simp
    with fs have "attempted = []" "c = 0" by simp_all
    with main_refines [OF assms nd w, of P] True \<open>?snap = []\<close> show ?thesis by simp
  next
    case False
    with main_refines [OF assms nd w, of P]
    have m: "runs ?r = runs ?pt" "exit_code ?r = exit_code ?pt"
      "spawned_tickets (trace ?r) = map fst (runs ?r)" by simp_all
    from process_tickets_refines [OF fs, of "length ?snap"] show ?thesis
      unfolding m by simp
  qed
  have old: "(\<exists>k \<le> length ?snap. map fst (runs ?r) = take k ?snap)
       \<and> spawned_tickets (trace ?r) = map fst (runs ?r)
       \<and> (\<forall>x \<in> set (butlast (runs ?r)). snd x = Resolved 0)
       \<and> (\<forall>t c. (t, Resolved c) \<in> set (runs ?r) \<and> c \<noteq> 0
             \<longrightarrow> last (runs ?r) = (t, Resolved c) \<and> exit_code ?r = Some c)
       \<and> ((\<forall>x \<in> set (runs ?r). snd x = Resolved 0) \<and> length (runs ?r) = length ?snap
           \<longrightarrow> exit_code ?r = Some 0)"
    using prefix spawned earlier failing clean by blast
  have new: "\<forall>attempted c.
             \<not> dryRun cfg \<and> writable fs (join ?tdir ''.logs'')
             \<and> fail_stop (attempt P env (agent cfg) (join ?tdir ''.logs'')) 0 ?snap fs
                 = Some (attempted, c)
             \<longrightarrow> spawned_tickets (trace ?r) = attempted
                 \<and> map fst (runs ?r) = attempted
                 \<and> exit_code ?r = Some c
                 \<and> attempted = take (length attempted) ?snap
                 \<and> (c = 0 \<longrightarrow> attempted = ?snap
                        \<and> runs ?r = map (\<lambda>u. (u, Resolved 0)) ?snap)
                 \<and> (c \<noteq> 0 \<longrightarrow> (\<exists>earlier t. attempted = earlier @ [t]
                        \<and> runs ?r = map (\<lambda>u. (u, Resolved 0)) earlier @ [(t, Resolved c)]))"
    using refines by blast
  from old new show ?thesis by (elim conjE) (intro conjI; assumption)
qed


theorem fail_stop_batch_witness:
  "parseArgs [''--stages'', ''fix,implement''] = Inr fix_implement
   \<and> snd (discoverAll three_fs (join (cwd second_fails_env) ''tickets'') (stages fix_implement))
       = Some [ticket_5a, ticket_3c, ticket_5b]
   \<and> \<not> dryRun fix_implement
   \<and> writable three_fs (join (join (cwd second_fails_env) ''tickets'') ''.logs'')
   \<and> fail_stop (attempt sample_platform second_fails_env (agent fix_implement)
                   (join (join (cwd second_fails_env) ''tickets'') ''.logs''))
        0 (run_order (stages fix_implement) [ticket_5a, ticket_3c, ticket_5b]) three_fs
       = Some ([ticket_5a, ticket_3c], 1)
   \<and> spawned_tickets
        (trace (main sample_platform second_fails_env [''--stages'', ''fix,implement''] three_fs))
       = [ticket_5a, ticket_3c]
   \<and> exit_code (main sample_platform second_fails_env [''--stages'', ''fix,implement''] three_fs)
       = Some 1"
proof -
  have dir: "join (cwd second_fails_env) ''tickets'' = ''/repo/tickets''"
    by (simp add: second_fails_env_def join_def)
  have d: "snd (discoverAll three_fs (join (cwd second_fails_env) ''tickets'')
                  (stages fix_implement)) = Some [ticket_5a, ticket_3c, ticket_5b]"
    by (simp only: dir sample_dirs discover_sample snd_conv)
  have w: "writable three_fs (join (join (cwd second_fails_env) ''tickets'') ''.logs'')"
    by (simp add: three_fs_def)
  have b: "fail_stop (attempt sample_platform second_fails_env (agent fix_implement)
                   (join (join (cwd second_fails_env) ''tickets'') ''.logs''))
        0 (run_order (stages fix_implement) [ticket_5a, ticket_3c, ticket_5b]) three_fs
       = Some ([ticket_5a, ticket_3c], 1)"
    by (simp only: dir sample_dirs order_sample second_fails_batch)
  from fail_stop_batch [OF parse_sample d, of sample_platform]
  have "\<forall>attempted c.
          \<not> dryRun fix_implement
          \<and> writable three_fs (join (join (cwd second_fails_env) ''tickets'') ''.logs'')
          \<and> fail_stop (attempt sample_platform second_fails_env (agent fix_implement)
                          (join (join (cwd second_fails_env) ''tickets'') ''.logs''))
               0 (run_order (stages fix_implement) [ticket_5a, ticket_3c, ticket_5b]) three_fs
              = Some (attempted, c)
          \<longrightarrow> spawned_tickets
                (trace (main sample_platform second_fails_env [''--stages'', ''fix,implement'']
                          three_fs)) = attempted
              \<and> exit_code (main sample_platform second_fails_env [''--stages'', ''fix,implement'']
                             three_fs) = Some c"
    by blast
  from this [rule_format, of "[ticket_5a, ticket_3c]" 1] sample_dirs(5) w b
  have "spawned_tickets
          (trace (main sample_platform second_fails_env [''--stages'', ''fix,implement''] three_fs))
          = [ticket_5a, ticket_3c]
        \<and> exit_code (main sample_platform second_fails_env [''--stages'', ''fix,implement'']
                       three_fs) = Some 1"
    by blast
  with parse_sample d sample_dirs(5) w b show ?thesis by blast
qed

end
